theory Spec2Isabelle
  imports Main "HOL-Library.Word"
begin

section \<open>Strings\<close>

text \<open>
  A JavaScript string is the list of its UTF-16 code units, each a 16-bit number;
  \<^verbatim>\<open>s.length\<close> is the length of the list.  The texts that the handlers write
  themselves (messages, property names) are ASCII and stay HOL strings; \<open>js\<close> gives the
  code units of such a text.
\<close>

type_synonym code_unit = "16 word"

type_synonym jstring = "code_unit list"

definition js :: "string \<Rightarrow> jstring" where
  "js s = map of_char s"

text \<open>
  The character class \<^verbatim>\<open>\s\<close> of a pattern without the \<^verbatim>\<open>u\<close> flag: the white space
  and line terminator code units of ECMAScript, that is U+0009 to U+000D, U+0020, U+00A0,
  U+1680, U+2000 to U+200A, U+2028, U+2029, U+202F, U+205F, U+3000 and U+FEFF.
\<close>

definition is_space :: "code_unit \<Rightarrow> bool" where
  "is_space c =
     ((9 \<le> c \<and> c \<le> 13) \<or> c = 32 \<or> c = 160 \<or> c = 5760 \<or> (8192 \<le> c \<and> c \<le> 8202)
      \<or> c = 8232 \<or> c = 8233 \<or> c = 8239 \<or> c = 8287 \<or> c = 12288 \<or> c = 65279)"

text \<open>The class \<^verbatim>\<open>[^\s@]\<close> of the e-mail pattern; 64 is \<^verbatim>\<open>@\<close>.\<close>

definition not_space_at :: "code_unit \<Rightarrow> bool" where
  "not_space_at c = (\<not> is_space c \<and> c \<noteq> 64)"

text \<open>
  \<open>plus_then p k s\<close>: some non-empty prefix of \<open>s\<close> consists of code units of the class \<open>p\<close>
  and the rest of \<open>s\<close> is accepted by \<open>k\<close> (the pattern \<^verbatim>\<open>p+\<close> followed by the pattern of
  \<open>k\<close>, with every split tried, as a backtracking matcher does).
\<close>

fun plus_then :: "(code_unit \<Rightarrow> bool) \<Rightarrow> (jstring \<Rightarrow> bool) \<Rightarrow> jstring \<Rightarrow> bool" where
  "plus_then p k [] = False"
| "plus_then p k (c # cs) = (p c \<and> (k cs \<or> plus_then p k cs))"

fun lit_then :: "code_unit \<Rightarrow> (jstring \<Rightarrow> bool) \<Rightarrow> jstring \<Rightarrow> bool" where
  "lit_then a k [] = False"
| "lit_then a k (c # cs) = (c = a \<and> k cs)"

text \<open>\<^verbatim>\<open>/^[^\s@]+@[^\s@]+\.[^\s@]+$/.test(email)\<close>; 64 is \<^verbatim>\<open>@\<close> and 46 is the dot.\<close>

definition emailRegex_test :: "jstring \<Rightarrow> bool" where
  "emailRegex_test s =
     plus_then not_space_at
       (lit_then 64
         (plus_then not_space_at
           (lit_then 46
             (plus_then not_space_at (\<lambda>r. r = []))))) s"

section \<open>Library functions\<close>

text \<open>
  The functions that the handlers call and the repository does not define are parameters:
  \<open>toLowerCase\<close> is \<^verbatim>\<open>String.prototype.toLowerCase\<close> of the JavaScript engine,
  \<open>LOWER\<close> is PostgreSQL's \<^verbatim>\<open>LOWER()\<close>, which follows the locale of the database and
  is another function, and \<open>bcrypt_hash\<close> and \<open>bcrypt_compare\<close> are \<^verbatim>\<open>bcrypt.hash\<close> and
  \<^verbatim>\<open>bcrypt.compare\<close>.
\<close>

record platform =
  toLowerCase :: "jstring \<Rightarrow> jstring"
  LOWER :: "jstring \<Rightarrow> jstring"
  bcrypt_hash :: "jstring \<Rightarrow> jstring"
  bcrypt_compare :: "jstring \<Rightarrow> jstring \<Rightarrow> bool"

section \<open>The users table\<close>

type_synonym timestamp = int

text \<open>One row of \<^verbatim>\<open>users\<close>; \<open>user_id\<close> is the column \<^verbatim>\<open>id\<close>.\<close>

record user =
  user_id :: nat
  username :: jstring
  email :: jstring
  password :: jstring
  created_at :: timestamp
  updated_at :: timestamp
  last_login :: "timestamp option"
  is_active :: bool

text \<open>
  The table in insertion order, with the sequence behind \<^verbatim>\<open>id SERIAL\<close>: \<open>users_id_seq\<close> is
  the last value handed out, 0 before the first insert.
\<close>

record db =
  rows :: "user list"
  users_id_seq :: nat

definition empty_db :: db where
  "empty_db = \<lparr>rows = [], users_id_seq = 0\<rparr>"

text \<open>
  The statements the handlers send, with their parameters.  A statement is one atomic
  action of the store.
\<close>

datatype sql =
    SelectExisting jstring jstring
  | InsertUser jstring jstring jstring
  | SelectLogin jstring
  | UpdateLastLogin nat
  | SelectProfile nat

text \<open>
  What \<^verbatim>\<open>db.query\<close> can throw.  Two errors depend on the table and the values and are
  computed: a unique violation (code 23505) and a value too long for its \<^verbatim>\<open>VARCHAR(n)\<close>
  column (code 22001).  Every other refusal of a statement comes from outside the table's
  contents: a lost connection, the sequence at its limit 2147483647 (code 2200H), a
  parameter that the store's encoding does not take.  None of these has the code 23505,
  the handlers answer all of them alike, and they leave the table as it is.  A handler
  is given a function \<open>up :: sql \<Rightarrow> bool\<close> that tells of each statement whether the store
  takes it; where \<open>up q\<close> is false, \<^verbatim>\<open>db.query\<close> throws such an error.  The ids
  themselves are not bounded here.
\<close>

datatype pg_error = UniqueViolation | ValueTooLong

definition err_code :: "pg_error \<Rightarrow> string" where
  "err_code e = (case e of UniqueViolation \<Rightarrow> ''23505'' | ValueTooLong \<Rightarrow> ''22001'')"

text \<open>
  The length that \<^verbatim>\<open>VARCHAR(n)\<close> counts: characters, so a surrogate pair (a code unit
  in D800 to DBFF followed by one in DC00 to DFFF) counts once.
\<close>

fun char_length :: "jstring \<Rightarrow> nat" where
  "char_length [] = 0"
| "char_length [a] = 1"
| "char_length (a # b # cs) =
     (if 55296 \<le> a \<and> a \<le> 56319 \<and> 56320 \<le> b \<and> b \<le> 57343 then Suc (char_length cs)
      else Suc (char_length (b # cs)))"

text \<open>\<^verbatim>\<open>SELECT id, username, email FROM users WHERE username = $1 OR email = $2\<close>\<close>

definition select_existing :: "db \<Rightarrow> jstring \<Rightarrow> jstring \<Rightarrow> user list" where
  "select_existing d u e = filter (\<lambda>r. username r = u \<or> email r = e) (rows d)"

text \<open>
  \<^verbatim>\<open>INSERT INTO users (username, email, password, created_at) VALUES ($1, $2, $3, NOW())
  RETURNING id, username, email, created_at\<close> on the table
  \<^verbatim>\<open>id SERIAL PRIMARY KEY, username VARCHAR(50) UNIQUE NOT NULL, email VARCHAR(100) UNIQUE
  NOT NULL, password VARCHAR(255) NOT NULL, ..., last_login TIMESTAMP, is_active BOOLEAN
  DEFAULT true\<close>.
  A value too long for its column is refused before the sequence is touched; a row that
  breaks a \<^verbatim>\<open>UNIQUE\<close> constraint is refused after the sequence has advanced.  The two
  constraints compare the stored strings exactly, over all rows.
\<close>

definition insert_user ::
  "timestamp \<Rightarrow> db \<Rightarrow> jstring \<Rightarrow> jstring \<Rightarrow> jstring \<Rightarrow> (pg_error + user) \<times> db" where
  "insert_user now d u e h =
     (if char_length u > 50 \<or> char_length e > 100 \<or> char_length h > 255
        then (Inl ValueTooLong, d)
      else
        (let i = users_id_seq d + 1;
             d1 = d\<lparr>users_id_seq := i\<rparr>
         in if (\<exists>r \<in> set (rows d). username r = u) \<or> (\<exists>r \<in> set (rows d). email r = e)
              then (Inl UniqueViolation, d1)
            else
              (let r = \<lparr>user_id = i, username = u, email = e, password = h, created_at = now,
                        updated_at = now, last_login = None, is_active = True\<rparr>
               in (Inr r, d1\<lparr>rows := rows d @ [r]\<rparr>))))"

text \<open>
  \<^verbatim>\<open>SELECT id, username, email, password, last_login FROM users
  WHERE LOWER(username) = LOWER($1) AND is_active = true\<close>, with the store's \<^verbatim>\<open>LOWER\<close>.
\<close>

definition select_login :: "platform \<Rightarrow> db \<Rightarrow> jstring \<Rightarrow> user list" where
  "select_login h d u =
     filter (\<lambda>r. LOWER h (username r) = LOWER h u \<and> is_active r) (rows d)"

text \<open>\<^verbatim>\<open>UPDATE users SET last_login = NOW() WHERE id = $1\<close>\<close>

definition update_last_login :: "timestamp \<Rightarrow> db \<Rightarrow> nat \<Rightarrow> db" where
  "update_last_login now d i =
     d\<lparr>rows := map (\<lambda>r. if user_id r = i then r\<lparr>last_login := Some now\<rparr> else r) (rows d)\<rparr>"

text \<open>
  \<^verbatim>\<open>SELECT id, username, email, created_at, last_login, (SELECT COUNT(*) FROM users) as
  total_users FROM users WHERE id = $1 AND is_active = true\<close>: each row with the count.
\<close>

definition select_profile :: "db \<Rightarrow> nat \<Rightarrow> (user \<times> nat) list" where
  "select_profile d i =
     map (\<lambda>r. (r, length (rows d))) (filter (\<lambda>r. user_id r = i \<and> is_active r) (rows d))"

section \<open>Requests, sessions and responses\<close>

text \<open>\<^verbatim>\<open>req.session\<close>: the three properties the handlers set, each absent until set.\<close>

record session =
  userId :: "nat option"
  session_username :: "jstring option"
  loginTime :: "timestamp option"

definition no_session :: session where
  "no_session = \<lparr>userId = None, session_username = None, loginTime = None\<rparr>"

text \<open>
  A response body: \<open>JStr\<close> is a text of the handler, \<open>JText\<close> a string that came from a
  request or the table.
\<close>

datatype json =
    JNull
  | JNum int
  | JStr string
  | JText jstring
  | JTime timestamp
  | JObj "(string \<times> json) list"

record response =
  status :: nat
  body :: json

text \<open>What a handler does besides answering: the statements it sends and the hasher calls.\<close>

datatype event = DbQuery sql | BcryptHash jstring | BcryptCompare jstring jstring

text \<open>The result of a handler: the response, the session, the table and the events, in order.\<close>

record outcome =
  resp :: response
  sess :: session
  store :: db
  trace :: "event list"

definition error_body :: "string \<Rightarrow> json" where
  "error_body msg = JObj [(''error'', JStr msg)]"

definition reply :: "nat \<Rightarrow> json \<Rightarrow> session \<Rightarrow> db \<Rightarrow> event list \<Rightarrow> outcome" where
  "reply st b s d t = \<lparr>resp = \<lparr>status = st, body = b\<rparr>, sess = s, store = d, trace = t\<rparr>"

text \<open>\<^verbatim>\<open>!x\<close> for a request field: the field is missing or the empty string.\<close>

definition falsy :: "jstring option \<Rightarrow> bool" where
  "falsy x = (case x of None \<Rightarrow> True | Some s \<Rightarrow> s = [])"

section \<open>POST /api/register\<close>

text \<open>
  The four validation checks, in the handler's order.  \<open>Inl\<close> is the 400 response of the
  first check that fails, \<open>Inr\<close> the three strings when all pass.
\<close>

definition register_validate ::
  "jstring option \<Rightarrow> jstring option \<Rightarrow> jstring option
     \<Rightarrow> response + (jstring \<times> jstring \<times> jstring)" where
  "register_validate username_f email_f password_f =
     (if falsy username_f \<or> falsy email_f \<or> falsy password_f then
        Inl \<lparr>status = 400,
             body = JObj [(''error'', JStr ''All fields are required''),
                          (''details'', JStr ''Username, email, and password must be provided'')]\<rparr>
      else
        (case (username_f, email_f, password_f) of
           (Some u, Some e, Some p) \<Rightarrow>
             if length u < 3 \<or> length u > 50 then
               Inl \<lparr>status = 400,
                    body = error_body ''Username must be between 3 and 50 characters''\<rparr>
             else if \<not> emailRegex_test e then
               Inl \<lparr>status = 400, body = error_body ''Please provide a valid email address''\<rparr>
             else if length p < 6 then
               Inl \<lparr>status = 400,
                    body = error_body ''Password must be at least 6 characters long''\<rparr>
             else Inr (u, e, p)
         | _ \<Rightarrow> Inl \<lparr>status = 400,
                    body = JObj [(''error'', JStr ''All fields are required''),
                                 (''details'',
                                  JStr ''Username, email, and password must be provided'')]\<rparr>))"

definition server_error :: "string \<Rightarrow> response" where
  "server_error msg = \<lparr>status = 500, body = error_body msg\<rparr>"

text \<open>
  The check for an existing user: the \<^verbatim>\<open>SELECT\<close> with the lowercased username and
  e-mail, and the answer when it finds a row.  The result is the response, or \<open>None\<close> when
  no row was found and the handler goes on, together with the events of this part: the
  statement that was sent.  Where the store does not take the statement, \<^verbatim>\<open>db.query\<close>
  throws and the \<^verbatim>\<open>catch\<close> block answers 500.
\<close>

definition register_check ::
  "platform \<Rightarrow> (sql \<Rightarrow> bool) \<Rightarrow> db \<Rightarrow> jstring \<Rightarrow> jstring \<Rightarrow> response option \<times> event list" where
  "register_check h up d u e =
     (let lu = toLowerCase h u;
          le = toLowerCase h e;
          q = SelectExisting lu le
      in if \<not> up q then
           (Some (server_error ''Registration failed due to server error''), [DbQuery q])
         else
           (case select_existing d lu le of
              [] \<Rightarrow> (None, [DbQuery q])
            | existing # _ \<Rightarrow>
                let conflictField =
                      (if toLowerCase h (username existing) = toLowerCase h u then ''username''
                       else ''email'')
                in (Some \<lparr>status = 400,
                          body = error_body
                                   (''This '' @ conflictField @ '' is already registered'')\<rparr>,
                    [DbQuery q])))"

text \<open>
  The rest of the handler: hash, \<^verbatim>\<open>INSERT\<close> of the lowercased username and e-mail,
  session, 201; the \<^verbatim>\<open>catch\<close> block answers 400 on code 23505 and 500 on any other
  error.  The result is the response, the session, the table and the events of this part.
\<close>

definition register_insert ::
  "platform \<Rightarrow> (sql \<Rightarrow> bool) \<Rightarrow> timestamp \<Rightarrow> db \<Rightarrow> session \<Rightarrow> jstring \<Rightarrow> jstring \<Rightarrow> jstring
     \<Rightarrow> response \<times> session \<times> db \<times> event list" where
  "register_insert h up now d s u e p =
     (let hashedPassword = bcrypt_hash h p;
          lu = toLowerCase h u;
          le = toLowerCase h e;
          q = InsertUser lu le hashedPassword;
          t = [BcryptHash p, DbQuery q]
      in if \<not> up q then (server_error ''Registration failed due to server error'', s, d, t)
         else
           (case insert_user now d lu le hashedPassword of
              (Inl err, d') \<Rightarrow>
                if err_code err = ''23505'' then
                  (\<lparr>status = 400, body = error_body ''Username or email already exists''\<rparr>,
                   s, d', t)
                else (server_error ''Registration failed due to server error'', s, d', t)
            | (Inr newUser, d') \<Rightarrow>
                (\<lparr>status = 201,
                  body = JObj [(''message'', JStr ''Registration successful''),
                               (''user'', JObj [(''id'', JNum (int (user_id newUser))),
                                                (''username'', JText (username newUser)),
                                                (''email'', JText (email newUser)),
                                                (''created_at'', JTime (created_at newUser))])]\<rparr>,
                 s\<lparr>userId := Some (user_id newUser),
                   session_username := Some (username newUser),
                   loginTime := Some now\<rparr>,
                 d', t)))"

text \<open>The handler when no other request touches the table between its two statements.\<close>

definition register ::
  "platform \<Rightarrow> (sql \<Rightarrow> bool) \<Rightarrow> timestamp \<Rightarrow> db \<Rightarrow> session
     \<Rightarrow> jstring option \<Rightarrow> jstring option \<Rightarrow> jstring option \<Rightarrow> outcome" where
  "register h up now d s username_f email_f password_f =
     (case register_validate username_f email_f password_f of
        Inl r \<Rightarrow> \<lparr>resp = r, sess = s, store = d, trace = []\<rparr>
      | Inr (u, e, p) \<Rightarrow>
          (case register_check h up d u e of
             (Some r, t) \<Rightarrow> \<lparr>resp = r, sess = s, store = d, trace = t\<rparr>
           | (None, t) \<Rightarrow>
               (case register_insert h up now d s u e p of
                  (r, s', d', t') \<Rightarrow> \<lparr>resp = r, sess = s', store = d', trace = t @ t'\<rparr>)))"

section \<open>POST /api/login\<close>

definition login ::
  "platform \<Rightarrow> (sql \<Rightarrow> bool) \<Rightarrow> timestamp \<Rightarrow> db \<Rightarrow> session
     \<Rightarrow> jstring option \<Rightarrow> jstring option \<Rightarrow> outcome" where
  "login h up now d s username_f password_f =
     (if falsy username_f \<or> falsy password_f then
        reply 400 (error_body ''Username and password are required'') s d []
      else
        (case (username_f, password_f) of
           (Some u, Some p) \<Rightarrow>
             if \<not> up (SelectLogin u) then
               reply 500 (error_body ''Login failed due to server error'') s d
                 [DbQuery (SelectLogin u)]
             else
               (case select_login h d u of
                  [] \<Rightarrow>
                    reply 401 (error_body ''Invalid username or password'') s d
                      [DbQuery (SelectLogin u)]
                | user # _ \<Rightarrow>
                    if \<not> bcrypt_compare h p (password user) then
                      reply 401 (error_body ''Invalid username or password'') s d
                        [DbQuery (SelectLogin u), BcryptCompare p (password user)]
                    else if \<not> up (UpdateLastLogin (user_id user)) then
                      reply 500 (error_body ''Login failed due to server error'') s d
                        [DbQuery (SelectLogin u), BcryptCompare p (password user),
                         DbQuery (UpdateLastLogin (user_id user))]
                    else
                      reply 200
                        (JObj [(''message'', JStr ''Login successful''),
                               (''user'',
                                JObj [(''id'', JNum (int (user_id user))),
                                      (''username'', JText (username user)),
                                      (''email'', JText (email user)),
                                      (''lastLogin'',
                                       (case last_login user of
                                          None \<Rightarrow> JNull | Some t \<Rightarrow> JTime t))])])
                        (s\<lparr>userId := Some (user_id user),
                           session_username := Some (username user),
                           loginTime := Some now\<rparr>)
                        (update_last_login now d (user_id user))
                        [DbQuery (SelectLogin u), BcryptCompare p (password user),
                         DbQuery (UpdateLastLogin (user_id user))])
         | _ \<Rightarrow> reply 400 (error_body ''Username and password are required'') s d []))"

section \<open>GET /api/profile\<close>

text \<open>
  \<^verbatim>\<open>Math.round((Date.now() - new Date(req.session.loginTime).getTime()) / 1000)\<close>, or 0 when
  the session has no login time; times are in milliseconds.
\<close>

definition sessionDuration :: "timestamp \<Rightarrow> session \<Rightarrow> int" where
  "sessionDuration now s =
     (case loginTime s of None \<Rightarrow> 0 | Some t \<Rightarrow> (now - t + 500) div 1000)"

text \<open>\<^verbatim>\<open>!req.session.userId\<close>: the property is absent, or it is the number 0.\<close>

definition profile :: "(sql \<Rightarrow> bool) \<Rightarrow> timestamp \<Rightarrow> db \<Rightarrow> session \<Rightarrow> outcome" where
  "profile up now d s =
     (case userId s of
        None \<Rightarrow> reply 401 (error_body ''Authentication required'') s d []
      | Some i \<Rightarrow>
          if i = 0 then reply 401 (error_body ''Authentication required'') s d []
          else if \<not> up (SelectProfile i) then
            reply 500 (error_body ''Failed to load profile'') s d [DbQuery (SelectProfile i)]
          else
            (case select_profile d i of
               [] \<Rightarrow>
                 reply 404 (error_body ''User account not found'') s d
                   [DbQuery (SelectProfile i)]
             | (user, total_users) # _ \<Rightarrow>
                 reply 200
                   (JObj [(''user'',
                           JObj [(''id'', JNum (int (user_id user))),
                                 (''username'', JText (username user)),
                                 (''email'', JText (email user)),
                                 (''created_at'', JTime (created_at user)),
                                 (''last_login'',
                                  (case last_login user of
                                     None \<Rightarrow> JNull | Some t \<Rightarrow> JTime t)),
                                 (''session_duration'', JNum (sessionDuration now s))]),
                          (''stats'', JObj [(''total_users'', JNum (int total_users))])])
                   s d [DbQuery (SelectProfile i)]))"

section \<open>Two registrations in flight\<close>

text \<open>
  A registration waits at its two statements, and another request can run in between.
  A request in flight is \<open>Fresh\<close> (nothing done), \<open>Checked\<close> (validated, and the \<^verbatim>\<open>SELECT\<close>
  found no row) or \<open>Finished\<close> with its response.  Each step runs one phase of the handler
  on the table as it is at that moment; every request has a session of its own.
\<close>

datatype task =
    Fresh "jstring option" "jstring option" "jstring option"
  | Checked jstring jstring jstring
  | Finished response

fun step_task :: "platform \<Rightarrow> (sql \<Rightarrow> bool) \<Rightarrow> timestamp \<Rightarrow> db \<Rightarrow> task \<Rightarrow> task \<times> db" where
  "step_task h up now d (Fresh username_f email_f password_f) =
     (case register_validate username_f email_f password_f of
        Inl r \<Rightarrow> (Finished r, d)
      | Inr (u, e, p) \<Rightarrow>
          (case register_check h up d u e of
             (Some r, t) \<Rightarrow> (Finished r, d)
           | (None, t) \<Rightarrow> (Checked u e p, d)))"
| "step_task h up now d (Checked u e p) =
     (case register_insert h up now d no_session u e p of (r, s', d', t) \<Rightarrow> (Finished r, d'))"
| "step_task h up now d (Finished r) = (Finished r, d)"

text \<open>
  A schedule says which of two requests takes the next step: \<open>True\<close> the first, \<open>False\<close> the
  second.
\<close>

fun run ::
  "platform \<Rightarrow> (sql \<Rightarrow> bool) \<Rightarrow> timestamp \<Rightarrow> bool list \<Rightarrow> db \<times> task \<times> task
     \<Rightarrow> db \<times> task \<times> task" where
  "run h up now [] st = st"
| "run h up now (w # ws) (d, a, b) =
     (if w then (case step_task h up now d a of (a', d') \<Rightarrow> run h up now ws (d', a', b))
      else (case step_task h up now d b of (b', d') \<Rightarrow> run h up now ws (d', a, b')))"

definition task_status :: "task \<Rightarrow> nat option" where
  "task_status t = (case t of Finished r \<Rightarrow> Some (status r) | _ \<Rightarrow> None)"

section \<open>Stored strings are lowercase\<close>

text \<open>A string is lowercase when the engine's \<^verbatim>\<open>toLowerCase\<close> leaves it as it is.\<close>

definition lowercase :: "platform \<Rightarrow> jstring \<Rightarrow> bool" where
  "lowercase h s = (toLowerCase h s = s)"

definition stored_lowercase :: "platform \<Rightarrow> db \<Rightarrow> bool" where
  "stored_lowercase h d =
     list_all (\<lambda>r. lowercase h (username r) \<and> lowercase h (email r)) (rows d)"

text \<open>
  \<open>lowered_query h u e q\<close>: \<open>q\<close> is one of the two statements of a registration and carries
  the lowercased forms of \<open>u\<close> and \<open>e\<close> as its username and e-mail parameters.
\<close>

fun lowered_query :: "platform \<Rightarrow> jstring \<Rightarrow> jstring \<Rightarrow> sql \<Rightarrow> bool" where
  "lowered_query h u e (SelectExisting a b) = (a = toLowerCase h u \<and> b = toLowerCase h e)"
| "lowered_query h u e (InsertUser a b hp) = (a = toLowerCase h u \<and> b = toLowerCase h e)"
| "lowered_query h u e q = False"

section \<open>Reading a response\<close>

text \<open>The value of \<open>user.id\<close> in a response body, when there is one.\<close>

definition json_get :: "string \<Rightarrow> json \<Rightarrow> json option" where
  "json_get k j = (case j of JObj kvs \<Rightarrow> map_of kvs k | _ \<Rightarrow> None)"

definition response_user_id :: "response \<Rightarrow> json option" where
  "response_user_id r =
     (case json_get ''user'' (body r) of Some u \<Rightarrow> json_get ''id'' u | None \<Rightarrow> None)"

section \<open>Predicates on two registrations in flight\<close>

text \<open>
  \<open>registrable h up d u e p\<close>: the request passes validation, the store takes its two
  statements, the lowercased values and the hash fit their columns and no row of \<open>d\<close> has
  the lowercased username or e-mail.  A registration that succeeds on its own is one
  (\<open>solo_registrable\<close> below).
\<close>

definition registrable ::
  "platform \<Rightarrow> (sql \<Rightarrow> bool) \<Rightarrow> db \<Rightarrow> jstring \<Rightarrow> jstring \<Rightarrow> jstring \<Rightarrow> bool" where
  "registrable h up d u e p =
     (register_validate (Some u) (Some e) (Some p) = Inr (u, e, p)
      \<and> up (SelectExisting (toLowerCase h u) (toLowerCase h e))
      \<and> up (InsertUser (toLowerCase h u) (toLowerCase h e) (bcrypt_hash h p))
      \<and> char_length (toLowerCase h u) \<le> 50 \<and> char_length (toLowerCase h e) \<le> 100
      \<and> char_length (bcrypt_hash h p) \<le> 255
      \<and> list_all (\<lambda>r. username r \<noteq> toLowerCase h u \<and> email r \<noteq> toLowerCase h e) (rows d))"

text \<open>
  A request that has not answered yet (\<open>pending\<close>), one that answered 201 (\<open>won\<close>), and
  one that has not answered or answered 400 (\<open>lost\<close>); \<open>progress\<close> counts the phases done.
\<close>

definition pending :: "jstring \<Rightarrow> jstring \<Rightarrow> jstring \<Rightarrow> task \<Rightarrow> bool" where
  "pending u e p t = (t = Fresh (Some u) (Some e) (Some p) \<or> t = Checked u e p)"

definition won :: "task \<Rightarrow> bool" where
  "won t = (task_status t = Some 201)"

definition lost :: "jstring \<Rightarrow> jstring \<Rightarrow> jstring \<Rightarrow> task \<Rightarrow> bool" where
  "lost u e p t = (pending u e p t \<or> task_status t = Some 400)"

fun progress :: "task \<Rightarrow> nat" where
  "progress (Fresh a b c) = 0"
| "progress (Checked u e p) = 1"
| "progress (Finished r) = 2"

text \<open>\<open>one_more d0 u d\<close>: the table \<open>d\<close> is \<open>d0\<close> with one more row, whose username is \<open>u\<close>.\<close>

definition one_more :: "db \<Rightarrow> jstring \<Rightarrow> db \<Rightarrow> bool" where
  "one_more d0 u d =
     (rows d \<noteq> [] \<and> butlast (rows d) = rows d0 \<and> username (last (rows d)) = u)"

text \<open>
  What holds of the table and two requests with the same lowercased username \<open>l\<close> at
  every moment: either nothing was inserted and both are pending, or exactly one row was
  added, one request has won and the other cannot win any more.
\<close>

fun race_inv ::
  "db \<Rightarrow> jstring \<Rightarrow> jstring \<Rightarrow> jstring \<Rightarrow> jstring \<Rightarrow> jstring \<Rightarrow> jstring \<Rightarrow> jstring
     \<Rightarrow> db \<times> task \<times> task \<Rightarrow> bool" where
  "race_inv d0 l uA eA pA uB eB pB (d, a, b) =
     ((rows d = rows d0 \<and> pending uA eA pA a \<and> pending uB eB pB b)
      \<or> (one_more d0 l d
          \<and> ((won a \<and> lost uB eB pB b) \<or> (won b \<and> lost uA eA pA a))))"

section \<open>Concrete values\<close>

text \<open>
  \<^verbatim>\<open>String.prototype.toLowerCase\<close> on strings of ASCII, Latin-1 and U+0130 (capital I with
  dot above, whose lowercase is the two code units U+0069 U+0307).  It is the engine's
  function on such strings only; other code units are left as they are.
\<close>

definition js_lower_unit :: "code_unit \<Rightarrow> jstring" where
  "js_lower_unit c =
     (if 65 \<le> c \<and> c \<le> 90 then [c + 32]
      else if 192 \<le> c \<and> c \<le> 222 \<and> c \<noteq> 215 then [c + 32]
      else if c = 304 then [105, 775]
      else [c])"

definition js_lower :: "jstring \<Rightarrow> jstring" where
  "js_lower s = concat (map js_lower_unit s)"

text \<open>\<^verbatim>\<open>LOWER()\<close> of a database in the C locale: the letters A to Z only.\<close>

definition c_lower :: "jstring \<Rightarrow> jstring" where
  "c_lower s = map (\<lambda>c. if 65 \<le> c \<and> c \<le> 90 then c + 32 else c) s"

text \<open>
  \<^verbatim>\<open>LOWER()\<close> of a database in a UTF-8 locale, on strings of ASCII, Latin-1 and U+0130:
  each character goes to its single lowercase character, U+0130 to U+0069.
\<close>

definition utf8_lower :: "jstring \<Rightarrow> jstring" where
  "utf8_lower s =
     map (\<lambda>c. if 65 \<le> c \<and> c \<le> 90 then c + 32
              else if 192 \<le> c \<and> c \<le> 222 \<and> c \<noteq> 215 then c + 32
              else if c = 304 then 105
              else c) s"

text \<open>
  Two platforms to run the handlers on.  Both hash by putting a fixed prefix in front of
  the password; they differ in the locale of the database.
\<close>

definition platform_C :: platform where
  "platform_C = \<lparr>toLowerCase = js_lower, LOWER = c_lower,
                 bcrypt_hash = (\<lambda>p. js ''$2b$12$'' @ p),
                 bcrypt_compare = (\<lambda>p hp. hp = js ''$2b$12$'' @ p)\<rparr>"

definition platform_utf8 :: platform where
  "platform_utf8 = \<lparr>toLowerCase = js_lower, LOWER = utf8_lower,
                    bcrypt_hash = (\<lambda>p. js ''$2b$12$'' @ p),
                    bcrypt_compare = (\<lambda>p hp. hp = js ''$2b$12$'' @ p)\<rparr>"

fun all_up :: "sql \<Rightarrow> bool" where
  "all_up q = True"

fun all_down :: "sql \<Rightarrow> bool" where
  "all_down q = False"

fun update_down :: "sql \<Rightarrow> bool" where
  "update_down (UpdateLastLogin i) = False"
| "update_down q = True"

text \<open>The table after Alice has registered at time 1000.\<close>

definition alice_row :: user where
  "alice_row = \<lparr>user_id = 1, username = js ''alice'', email = js ''alice@x.com'',
                password = js ''$2b$12$secret1'', created_at = 1000, updated_at = 1000,
                last_login = None, is_active = True\<rparr>"

definition alice_db :: db where
  "alice_db = \<lparr>rows = [alice_row], users_id_seq = 1\<rparr>"

text \<open>The table after Alice has also logged in at time 5000.\<close>

definition alice_back_db :: db where
  "alice_back_db = \<lparr>rows = [alice_row\<lparr>last_login := Some 5000\<rparr>], users_id_seq = 1\<rparr>"

text \<open>The first table with a second, inactive account.\<close>

definition bob_row :: user where
  "bob_row = \<lparr>user_id = 2, username = js ''bob'', email = js ''bob@x.com'',
              password = js ''$2b$12$hunter22'', created_at = 2000, updated_at = 2000,
              last_login = None, is_active = False\<rparr>"

definition two_db :: db where
  "two_db = \<lparr>rows = [alice_row, bob_row], users_id_seq = 2\<rparr>"

text \<open>Two registrations of the same username in different case, with different e-mails.\<close>

definition first_request :: task where
  "first_request = Fresh (Some (js ''Alice'')) (Some (js ''a@x.com'')) (Some (js ''secret1''))"

definition second_request :: task where
  "second_request = Fresh (Some (js ''alice'')) (Some (js ''b@x.com'')) (Some (js ''secret2''))"

text \<open>
  Two usernames with a capital letter outside ASCII: U+00C9 (capital E with acute)
  followed by \<^verbatim>\<open>COLE\<close>, and U+0130 (capital I with dot above) followed by
  \<^verbatim>\<open>stanbul\<close>.
\<close>

definition ecole :: jstring where
  "ecole = 201 # js ''COLE''"

definition istanbul :: jstring where
  "istanbul = 304 # js ''stanbul''"

section \<open>Facts about the model\<close>

subsection \<open>Registration\<close>

lemma validate_InrD:
  assumes "register_validate username_f email_f password_f = Inr (u, e, p)"
  shows "username_f = Some u \<and> email_f = Some e \<and> password_f = Some p
         \<and> 3 \<le> length u \<and> length u \<le> 50 \<and> emailRegex_test e \<and> 6 \<le> length p"
  using assms
  by (cases username_f; cases email_f; cases password_f)
     (auto simp add: register_validate_def falsy_def split: if_splits)

lemma insert_user_cases:
  "insert_user now d u e hp = (Inl ValueTooLong, d)
   \<or> insert_user now d u e hp = (Inl UniqueViolation, d\<lparr>users_id_seq := users_id_seq d + 1\<rparr>)
   \<or> insert_user now d u e hp =
       (Inr \<lparr>user_id = users_id_seq d + 1, username = u, email = e, password = hp,
             created_at = now, updated_at = now, last_login = None, is_active = True\<rparr>,
        d\<lparr>users_id_seq := users_id_seq d + 1,
          rows := rows d @ [\<lparr>user_id = users_id_seq d + 1, username = u, email = e,
                             password = hp, created_at = now, updated_at = now,
                             last_login = None, is_active = True\<rparr>]\<rparr>)"
  by (simp add: insert_user_def Let_def)

lemma insert_user_lowercase:
  assumes "stored_lowercase h d" "lowercase h u" "lowercase h e"
  shows "stored_lowercase h (snd (insert_user now d u e hp))"
  using assms insert_user_cases [of now d u e hp]
  by (auto simp add: stored_lowercase_def)

lemma register_insert_lowercase:
  assumes "stored_lowercase h d"
    and "lowercase h (toLowerCase h u)" "lowercase h (toLowerCase h e)"
  shows "stored_lowercase h (fst (snd (snd (register_insert h up now d s u e p))))"
proof -
  have "stored_lowercase h
          (snd (insert_user now d (toLowerCase h u) (toLowerCase h e) (bcrypt_hash h p)))"
    using assms by (rule insert_user_lowercase)
  thus ?thesis
    using assms(1)
    by (auto simp add: register_insert_def Let_def split: prod.splits sum.splits)
qed

lemma register_lowercase:
  assumes "stored_lowercase h d"
    and "lowercase h (toLowerCase h u)" "lowercase h (toLowerCase h e)"
  shows "stored_lowercase h (store (register h up now d s (Some u) (Some e) (Some p)))"
proof (cases "register_validate (Some u) (Some e) (Some p)")
  case (Inl r)
  thus ?thesis using assms(1) by (simp add: register_def)
next
  case (Inr t)
  obtain u0 e0 p0 where t: "t = (u0, e0, p0)" by (cases t) auto
  have eq: "u0 = u" "e0 = e" "p0 = p"
    using validate_InrD [of "Some u" "Some e" "Some p" u0 e0 p0] Inr t by simp_all
  obtain c tc where chk: "register_check h up d u e = (c, tc)"
    by (cases "register_check h up d u e") auto
  show ?thesis
  proof (cases c)
    case (Some r)
    thus ?thesis using assms(1) Inr t eq chk by (simp add: register_def)
  next
    case None
    obtain r s' d' t' where ri: "register_insert h up now d s u e p = (r, s', d', t')"
      by (cases "register_insert h up now d s u e p") auto
    have "stored_lowercase h d'"
      using register_insert_lowercase [OF assms, of up now s p] ri by simp
    thus ?thesis using Inr t eq chk None ri by (simp add: register_def)
  qed
qed

lemma login_store:
  "store (login h up now d s username_f password_f) = d
   \<or> (\<exists>i. store (login h up now d s username_f password_f) = update_last_login now d i)"
  by (auto simp add: login_def reply_def split: option.splits list.splits)

lemma update_last_login_lowercase:
  "stored_lowercase h d \<Longrightarrow> stored_lowercase h (update_last_login now d i)"
  by (auto simp add: stored_lowercase_def update_last_login_def list_all_iff)

lemma login_lowercase:
  assumes "stored_lowercase h d"
  shows "stored_lowercase h (store (login h up now d s username_f password_f))"
  using assms login_store [of h up now d s username_f password_f]
  by (auto simp add: update_last_login_lowercase)

lemma profile_store: "store (profile up now d s) = d"
  by (auto simp add: profile_def reply_def split: option.splits list.splits prod.splits)

lemma select_existing_Nil:
  "(select_existing d u e = []) = (\<forall>r \<in> set (rows d). username r \<noteq> u \<and> email r \<noteq> e)"
  by (auto simp add: select_existing_def filter_empty_conv)

lemma register_check_events:
  "snd (register_check h up d u e) =
     [DbQuery (SelectExisting (toLowerCase h u) (toLowerCase h e))]"
  by (simp add: register_check_def Let_def split: list.splits)

lemma register_check_None:
  "(fst (register_check h up d u e) = None) =
     (up (SelectExisting (toLowerCase h u) (toLowerCase h e))
      \<and> select_existing d (toLowerCase h u) (toLowerCase h e) = [])"
  by (auto simp add: register_check_def server_error_def Let_def split: list.splits)

lemma register_check_status:
  "fst (register_check h up d u e) = Some r \<Longrightarrow> status r = 400 \<or> status r = 500"
  by (auto simp add: register_check_def server_error_def Let_def split: if_splits list.splits)

lemma register_insert_events:
  "snd (snd (snd (register_insert h up now d s u e p))) =
     [BcryptHash p,
      DbQuery (InsertUser (toLowerCase h u) (toLowerCase h e) (bcrypt_hash h p))]"
  by (simp add: register_insert_def Let_def split: prod.splits sum.splits)

lemma register_insert_201D:
  assumes "status (fst (register_insert h up now d s u e p)) = 201"
  shows "register_insert h up now d s u e p =
           (\<lparr>status = 201,
             body = JObj [(''message'', JStr ''Registration successful''),
                          (''user'', JObj [(''id'', JNum (int (users_id_seq d + 1))),
                                           (''username'', JText (toLowerCase h u)),
                                           (''email'', JText (toLowerCase h e)),
                                           (''created_at'', JTime now)])]\<rparr>,
            s\<lparr>userId := Some (users_id_seq d + 1),
              session_username := Some (toLowerCase h u), loginTime := Some now\<rparr>,
            d\<lparr>users_id_seq := users_id_seq d + 1,
              rows := rows d @ [\<lparr>user_id = users_id_seq d + 1, username = toLowerCase h u,
                                 email = toLowerCase h e, password = bcrypt_hash h p,
                                 created_at = now, updated_at = now, last_login = None,
                                 is_active = True\<rparr>]\<rparr>,
            [BcryptHash p,
             DbQuery (InsertUser (toLowerCase h u) (toLowerCase h e) (bcrypt_hash h p))])"
  using assms insert_user_cases [of now d "toLowerCase h u" "toLowerCase h e" "bcrypt_hash h p"]
  by (auto simp add: register_insert_def Let_def server_error_def err_code_def
           split: if_splits)

text \<open>The handler in terms of its two parts, for a request that passes validation.\<close>

lemma register_valid:
  assumes "register_validate (Some u) (Some e) (Some p) = Inr (u, e, p)"
  shows "register h up now d s (Some u) (Some e) (Some p) =
           (case fst (register_check h up d u e) of
              Some r \<Rightarrow> \<lparr>resp = r, sess = s, store = d,
                         trace = [DbQuery (SelectExisting (toLowerCase h u) (toLowerCase h e))]\<rparr>
            | None \<Rightarrow>
                \<lparr>resp = fst (register_insert h up now d s u e p),
                 sess = fst (snd (register_insert h up now d s u e p)),
                 store = fst (snd (snd (register_insert h up now d s u e p))),
                 trace = [DbQuery (SelectExisting (toLowerCase h u) (toLowerCase h e)),
                          BcryptHash p,
                          DbQuery (InsertUser (toLowerCase h u) (toLowerCase h e)
                                     (bcrypt_hash h p))]\<rparr>)"
proof -
  obtain c tc where chk: "register_check h up d u e = (c, tc)"
    by (cases "register_check h up d u e") auto
  have tc: "tc = [DbQuery (SelectExisting (toLowerCase h u) (toLowerCase h e))]"
    using register_check_events [of h up d u e] chk by simp
  obtain r s' d' t' where ri: "register_insert h up now d s u e p = (r, s', d', t')"
    by (cases "register_insert h up now d s u e p") auto
  have t': "t' = [BcryptHash p,
                  DbQuery (InsertUser (toLowerCase h u) (toLowerCase h e) (bcrypt_hash h p))]"
    using register_insert_events [of h up now d s u e p] ri by simp
  show ?thesis
    using assms chk tc ri t' by (cases c) (simp_all add: register_def)
qed

lemma register_201D:
  assumes "status (resp (register h up now d s (Some u) (Some e) (Some p))) = 201"
  shows "register_validate (Some u) (Some e) (Some p) = Inr (u, e, p)
         \<and> fst (register_check h up d u e) = None
         \<and> status (fst (register_insert h up now d s u e p)) = 201
         \<and> resp (register h up now d s (Some u) (Some e) (Some p)) =
             fst (register_insert h up now d s u e p)
         \<and> sess (register h up now d s (Some u) (Some e) (Some p)) =
             fst (snd (register_insert h up now d s u e p))
         \<and> store (register h up now d s (Some u) (Some e) (Some p)) =
             fst (snd (snd (register_insert h up now d s u e p)))"
proof (cases "register_validate (Some u) (Some e) (Some p)")
  case (Inl r)
  hence "status r = 201" using assms by (simp add: register_def)
  moreover have "status r = 400"
    using Inl by (auto simp add: register_validate_def split: if_splits option.splits)
  ultimately show ?thesis by simp
next
  case (Inr t)
  obtain u0 e0 p0 where t: "t = (u0, e0, p0)" by (cases t) auto
  have eq: "u0 = u" "e0 = e" "p0 = p"
    using validate_InrD [of "Some u" "Some e" "Some p" u0 e0 p0] Inr t by simp_all
  have v: "register_validate (Some u) (Some e) (Some p) = Inr (u, e, p)"
    using Inr t eq by simp
  show ?thesis
  proof (cases "fst (register_check h up d u e)")
    case (Some r)
    hence "status r = 201" using assms register_valid [OF v, of h up now d s] by simp
    thus ?thesis using register_check_status [OF Some] by simp
  next
    case None
    thus ?thesis using assms v register_valid [OF v, of h up now d s] by simp
  qed
qed

subsection \<open>Steps of two registrations\<close>

text \<open>A request that takes its two steps with nothing in between is the handler.\<close>

lemma steps_alone_are_register:
  assumes "step_task h up now d (Fresh username_f email_f password_f) = (t1, d1)"
    and "step_task h up now d1 t1 = (t2, d2)"
  shows "t2 = Finished (resp (register h up now d no_session username_f email_f password_f))
         \<and> d2 = store (register h up now d no_session username_f email_f password_f)"
  using assms
  by (auto simp add: register_def split: sum.splits option.splits prod.splits)

lemma one_more_iff: "one_more d0 u d = (\<exists>r. rows d = rows d0 @ [r] \<and> username r = u)"
proof
  assume "one_more d0 u d"
  hence ne: "rows d \<noteq> []" and bl: "butlast (rows d) = rows d0" and l: "username (last (rows d)) = u"
    by (simp_all add: one_more_def)
  have "rows d = butlast (rows d) @ [last (rows d)]" using ne by simp
  thus "\<exists>r. rows d = rows d0 @ [r] \<and> username r = u" using bl l by metis
next
  assume "\<exists>r. rows d = rows d0 @ [r] \<and> username r = u"
  thus "one_more d0 u d" by (auto simp add: one_more_def)
qed

lemma one_more_rows: "rows d' = rows d \<Longrightarrow> one_more d0 u d' = one_more d0 u d"
  by (simp add: one_more_def)

lemma solo_registrable:
  assumes "status (resp (register h up now d s (Some u) (Some e) (Some p))) = 201"
  shows "registrable h up d u e p"
proof -
  have v: "register_validate (Some u) (Some e) (Some p) = Inr (u, e, p)"
    and chk: "fst (register_check h up d u e) = None"
    and ins: "status (fst (register_insert h up now d s u e p)) = 201"
    using register_201D [OF assms] by simp_all
  have a: "up (SelectExisting (toLowerCase h u) (toLowerCase h e))"
    and b: "\<forall>r \<in> set (rows d). username r \<noteq> toLowerCase h u \<and> email r \<noteq> toLowerCase h e"
    using chk by (simp_all add: register_check_None select_existing_Nil)
  have c: "up (InsertUser (toLowerCase h u) (toLowerCase h e) (bcrypt_hash h p))"
    using ins by (auto simp add: register_insert_def Let_def server_error_def split: if_splits)
  have "fst (insert_user now d (toLowerCase h u) (toLowerCase h e) (bcrypt_hash h p)) \<noteq>
          Inl ValueTooLong"
    using ins c
    by (auto simp add: register_insert_def Let_def server_error_def err_code_def
             split: if_splits prod.splits sum.splits)
  hence "char_length (toLowerCase h u) \<le> 50 \<and> char_length (toLowerCase h e) \<le> 100
         \<and> char_length (bcrypt_hash h p) \<le> 255"
    by (auto simp add: insert_user_def Let_def split: if_splits)
  thus ?thesis using v a b c by (simp add: registrable_def list_all_iff)
qed

lemma step_fresh_free:
  assumes "registrable h up d0 u e p" "rows d = rows d0"
  shows "step_task h up now d (Fresh (Some u) (Some e) (Some p)) = (Checked u e p, d)"
proof -
  have "fst (register_check h up d u e) = None"
    using assms by (simp add: registrable_def register_check_None select_existing_Nil list_all_iff)
  thus ?thesis using assms(1)
    by (cases "register_check h up d u e") (simp add: registrable_def)
qed

lemma step_checked_free:
  assumes "registrable h up d0 u e p" "rows d = rows d0"
  shows "\<exists>t' d'. step_task h up now d (Checked u e p) = (t', d') \<and> won t'
           \<and> one_more d0 (toLowerCase h u) d'"
proof -
  have "fst (insert_user now d (toLowerCase h u) (toLowerCase h e) (bcrypt_hash h p)) =
           Inr \<lparr>user_id = users_id_seq d + 1, username = toLowerCase h u,
                email = toLowerCase h e, password = bcrypt_hash h p, created_at = now,
                updated_at = now, last_login = None, is_active = True\<rparr>
         \<and> rows (snd (insert_user now d (toLowerCase h u) (toLowerCase h e) (bcrypt_hash h p))) =
             rows d0 @ [\<lparr>user_id = users_id_seq d + 1, username = toLowerCase h u,
                          email = toLowerCase h e, password = bcrypt_hash h p,
                          created_at = now, updated_at = now, last_login = None,
                          is_active = True\<rparr>]"
    using assms
    by (auto simp add: registrable_def insert_user_def Let_def list_all_iff)
  thus ?thesis
    using assms(1)
    by (auto simp add: registrable_def register_insert_def Let_def won_def task_status_def
                       one_more_iff
             split: prod.splits sum.splits)
qed

lemma step_fresh_taken:
  assumes "registrable h up d0 u e p" "\<exists>r \<in> set (rows d). username r = toLowerCase h u"
  shows "\<exists>t'. step_task h up now d (Fresh (Some u) (Some e) (Some p)) = (t', d)
           \<and> task_status t' = Some 400"
proof -
  have "select_existing d (toLowerCase h u) (toLowerCase h e) \<noteq> []"
    using assms(2) by (auto simp add: select_existing_def filter_empty_conv)
  then obtain r rs where "select_existing d (toLowerCase h u) (toLowerCase h e) = r # rs"
    by (cases "select_existing d (toLowerCase h u) (toLowerCase h e)") auto
  thus ?thesis
    using assms(1)
    by (simp add: registrable_def register_check_def Let_def task_status_def)
qed

lemma step_checked_taken:
  assumes "registrable h up d0 u e p" "\<exists>r \<in> set (rows d). username r = toLowerCase h u"
  shows "\<exists>t' d'. step_task h up now d (Checked u e p) = (t', d')
           \<and> task_status t' = Some 400 \<and> rows d' = rows d"
proof -
  have "insert_user now d (toLowerCase h u) (toLowerCase h e) (bcrypt_hash h p) =
          (Inl UniqueViolation, d\<lparr>users_id_seq := users_id_seq d + 1\<rparr>)"
    using assms by (auto simp add: registrable_def insert_user_def Let_def)
  thus ?thesis
    using assms(1)
    by (simp add: registrable_def register_insert_def Let_def task_status_def err_code_def)
qed

lemma step_finished:
  assumes "task_status t = Some n"
  shows "step_task h up now d t = (t, d)"
  using assms by (cases t) (simp_all add: task_status_def)

text \<open>One step of a request, seen from that request.\<close>

lemma step_before:
  assumes me: "registrable h up d0 u e p"
    and st: "step_task h up now d t = (t', d')"
    and q: "rows d = rows d0" "pending u e p t"
  shows "((rows d' = rows d0 \<and> pending u e p t')
          \<or> (one_more d0 (toLowerCase h u) d' \<and> won t'))
         \<and> min 2 (progress t + 1) \<le> progress t'"
proof -
  consider (ff) "t = Fresh (Some u) (Some e) (Some p)" | (cf) "t = Checked u e p"
    using q(2) by (auto simp add: pending_def)
  thus ?thesis
  proof cases
    case ff
    have "step_task h up now d t = (Checked u e p, d)"
      using step_fresh_free [OF me q(1)] ff by simp
    thus ?thesis using st ff q(1) by (auto simp add: pending_def)
  next
    case cf
    obtain t2 d2 where "step_task h up now d (Checked u e p) = (t2, d2)" "won t2"
        "one_more d0 (toLowerCase h u) d2"
      using step_checked_free [OF me q(1)] by blast
    thus ?thesis using st cf
      by (cases t') (auto simp add: won_def task_status_def)
  qed
qed

lemma step_winner:
  assumes st: "step_task h up now d t = (t', d')" and w: "won t"
  shows "t' = t \<and> d' = d \<and> min 2 (progress t + 1) \<le> progress t'"
proof -
  have "step_task h up now d t = (t, d)"
    using step_finished w by (simp add: won_def)
  thus ?thesis using st w by (cases t) (auto simp add: won_def task_status_def)
qed

lemma step_loser:
  assumes me: "registrable h up d0 u e p"
    and st: "step_task h up now d t = (t', d')"
    and q: "one_more d0 (toLowerCase h u) d" "lost u e p t"
  shows "task_status t' = Some 400 \<and> rows d' = rows d \<and> min 2 (progress t + 1) \<le> progress t'"
proof -
  have ex: "\<exists>r \<in> set (rows d). username r = toLowerCase h u"
    using q(1) by (auto simp add: one_more_iff)
  consider (lf) "t = Fresh (Some u) (Some e) (Some p)" | (lc) "t = Checked u e p"
    | (l4) "task_status t = Some 400"
    using q(2) by (auto simp add: pending_def lost_def)
  thus ?thesis
  proof cases
    case lf
    obtain t2 where "step_task h up now d (Fresh (Some u) (Some e) (Some p)) = (t2, d)"
        "task_status t2 = Some 400"
      using step_fresh_taken [OF me ex] by blast
    thus ?thesis using st lf
      by (cases t') (auto simp add: task_status_def)
  next
    case lc
    obtain t2 d2 where "step_task h up now d (Checked u e p) = (t2, d2)"
        "task_status t2 = Some 400" "rows d2 = rows d"
      using step_checked_taken [OF me ex] by blast
    thus ?thesis using st lc
      by (cases t') (auto simp add: task_status_def)
  next
    case l4
    have "step_task h up now d t = (t, d)"
      using step_finished l4 by simp
    thus ?thesis using st l4
      by (cases t') (auto simp add: task_status_def)
  qed
qed

lemma pending_lost: "pending u e p t \<Longrightarrow> lost u e p t"
  by (simp add: lost_def)

lemma status_lost: "task_status t = Some 400 \<Longrightarrow> lost u e p t"
  by (simp add: lost_def)

lemma race_step_first:
  assumes A: "registrable h up d0 uA eA pA" and B: "registrable h up d0 uB eB pB"
    and same: "toLowerCase h uA = toLowerCase h uB"
    and inv: "race_inv d0 (toLowerCase h uA) uA eA pA uB eB pB (d, a, b)"
    and st: "step_task h up now d a = (a', d')"
  shows "race_inv d0 (toLowerCase h uA) uA eA pA uB eB pB (d', a', b)
         \<and> min 2 (progress a + 1) \<le> progress a'"
proof -
  consider (c1) "rows d = rows d0" "pending uA eA pA a" "pending uB eB pB b"
    | (c2) "one_more d0 (toLowerCase h uA) d" "won a" "lost uB eB pB b"
    | (c3) "one_more d0 (toLowerCase h uA) d" "won b" "lost uA eA pA a"
    using inv by auto
  thus ?thesis
  proof cases
    case c1
    show ?thesis
      using step_before [OF A st c1(1) c1(2)] c1(3) pending_lost [of uB eB pB b] by auto
  next
    case c2
    show ?thesis using step_winner [OF st c2(2)] c2 by auto
  next
    case c3
    have s: "task_status a' = Some 400 \<and> rows d' = rows d \<and> min 2 (progress a + 1) \<le> progress a'"
      using step_loser [OF A st c3(1) c3(3)] .
    hence "one_more d0 (toLowerCase h uA) d'" using c3(1) one_more_rows by blast
    thus ?thesis using s c3(2) status_lost [of a' uA eA pA] by auto
  qed
qed

lemma race_step_second:
  assumes A: "registrable h up d0 uA eA pA" and B: "registrable h up d0 uB eB pB"
    and same: "toLowerCase h uA = toLowerCase h uB"
    and inv: "race_inv d0 (toLowerCase h uA) uA eA pA uB eB pB (d, a, b)"
    and st: "step_task h up now d b = (b', d')"
  shows "race_inv d0 (toLowerCase h uA) uA eA pA uB eB pB (d', a, b')
         \<and> min 2 (progress b + 1) \<le> progress b'"
proof -
  consider (c1) "rows d = rows d0" "pending uA eA pA a" "pending uB eB pB b"
    | (c2) "one_more d0 (toLowerCase h uB) d" "won b" "lost uA eA pA a"
    | (c3) "one_more d0 (toLowerCase h uB) d" "won a" "lost uB eB pB b"
    using inv same by auto
  thus ?thesis
  proof cases
    case c1
    show ?thesis
      using step_before [OF B st c1(1) c1(3)] c1(2) pending_lost [of uA eA pA a] same by auto
  next
    case c2
    show ?thesis using step_winner [OF st c2(2)] c2 same by auto
  next
    case c3
    have s: "task_status b' = Some 400 \<and> rows d' = rows d \<and> min 2 (progress b + 1) \<le> progress b'"
      using step_loser [OF B st c3(1) c3(3)] .
    hence "one_more d0 (toLowerCase h uB) d'" using c3(1) one_more_rows by blast
    thus ?thesis using s c3(2) status_lost [of b' uB eB pB] same by auto
  qed
qed

lemma run_inv:
  assumes A: "registrable h up d0 uA eA pA" and B: "registrable h up d0 uB eB pB"
    and same: "toLowerCase h uA = toLowerCase h uB"
  shows "race_inv d0 (toLowerCase h uA) uA eA pA uB eB pB (d, a, b) \<Longrightarrow>
         run h up now ws (d, a, b) = (d', a', b') \<Longrightarrow>
         race_inv d0 (toLowerCase h uA) uA eA pA uB eB pB (d', a', b')
         \<and> min 2 (progress a + count_list ws True) \<le> progress a'
         \<and> min 2 (progress b + count_list ws False) \<le> progress b'"
proof (induction ws arbitrary: d a b)
  case Nil
  thus ?case by simp
next
  case (Cons w ws)
  show ?case
  proof (cases w)
    case True
    obtain a1 d1 where st: "step_task h up now d a = (a1, d1)"
      by (cases "step_task h up now d a") auto
    have 1: "race_inv d0 (toLowerCase h uA) uA eA pA uB eB pB (d1, a1, b)"
      and 2: "min 2 (progress a + 1) \<le> progress a1"
      using race_step_first [OF A B same Cons.prems(1) st] by simp_all
    have "run h up now ws (d1, a1, b) = (d', a', b')"
      using Cons.prems(2) True st by simp
    from Cons.IH [OF 1 this] 2 True show ?thesis by auto
  next
    case False
    obtain b1 d1 where st: "step_task h up now d b = (b1, d1)"
      by (cases "step_task h up now d b") auto
    have 1: "race_inv d0 (toLowerCase h uA) uA eA pA uB eB pB (d1, a, b1)"
      and 2: "min 2 (progress b + 1) \<le> progress b1"
      using race_step_second [OF A B same Cons.prems(1) st] by simp_all
    have "run h up now ws (d1, a, b1) = (d', a', b')"
      using Cons.prems(2) False st by simp
    from Cons.IH [OF 1 this] 2 False show ?thesis by auto
  qed
qed

lemma progress_pending: "pending u e p t \<Longrightarrow> progress t < 2"
  by (auto simp add: pending_def)

lemma finished_lost: "lost u e p t \<Longrightarrow> 2 \<le> progress t \<Longrightarrow> task_status t = Some 400"
  using progress_pending [of u e p t] by (auto simp add: lost_def)

subsection \<open>The lookup of a registration\<close>

lemma register_check_conflict:
  assumes "up (SelectExisting (toLowerCase h u) (toLowerCase h e))"
    and "\<exists>r \<in> set (rows d). username r = toLowerCase h u \<or> email r = toLowerCase h e"
  shows "\<exists>r. fst (register_check h up d u e) = Some r \<and> status r = 400"
proof -
  have "select_existing d (toLowerCase h u) (toLowerCase h e) \<noteq> []"
    using assms(2) by (auto simp add: select_existing_def filter_empty_conv)
  then obtain x xs where "select_existing d (toLowerCase h u) (toLowerCase h e) = x # xs"
    by (cases "select_existing d (toLowerCase h u) (toLowerCase h e)") auto
  thus ?thesis using assms(1) by (simp add: register_check_def Let_def)
qed

lemma register_new_rows:
  assumes "r \<in> set (rows (store (register h up now d s (Some u) (Some e) (Some p))))"
    and "r \<notin> set (rows d)"
  shows "username r = toLowerCase h u \<and> email r = toLowerCase h e"
proof (cases "register_validate (Some u) (Some e) (Some p)")
  case (Inl x)
  thus ?thesis using assms by (simp add: register_def)
next
  case (Inr t)
  obtain u0 e0 p0 where t: "t = (u0, e0, p0)" by (cases t) auto
  have eq: "u0 = u" "e0 = e" "p0 = p"
    using validate_InrD [of "Some u" "Some e" "Some p" u0 e0 p0] Inr t by simp_all
  have v: "register_validate (Some u) (Some e) (Some p) = Inr (u, e, p)"
    using Inr t eq by simp
  show ?thesis
  proof (cases "fst (register_check h up d u e)")
    case (Some x)
    thus ?thesis using assms register_valid [OF v, of h up now d s] by simp
  next
    case None
    hence "r \<in> set (rows (fst (snd (snd (register_insert h up now d s u e p)))))"
      using assms(1) register_valid [OF v, of h up now d s] by simp
    thus ?thesis
      using assms(2)
            insert_user_cases [of now d "toLowerCase h u" "toLowerCase h e" "bcrypt_hash h p"]
      by (auto simp add: register_insert_def Let_def split: if_splits)
  qed
qed

lemma register_missing_field:
  assumes "username_f = None \<or> email_f = None \<or> password_f = None"
  shows "store (register h up now d s username_f email_f password_f) = d
         \<and> trace (register h up now d s username_f email_f password_f) = []"
  using assms by (auto simp add: register_def register_validate_def falsy_def)

section \<open>Missing credentials\<close>

text \<open>
  Claim C8.  A login whose username or password is missing or empty is answered 400
  "Username and password are required" at once: the handler sends no statement to the
  store and calls no password comparison (its list of events is empty), whatever the
  store's state and availability, and the table and the session stay as they were.
\<close>

theorem login_missing_fields_no_lookup:
  assumes "falsy username_f \<or> falsy password_f"
  shows "resp (login h up now d s username_f password_f) =
           \<lparr>status = 400, body = error_body ''Username and password are required''\<rparr>
         \<and> trace (login h up now d s username_f password_f) = []
         \<and> store (login h up now d s username_f password_f) = d
         \<and> sess (login h up now d s username_f password_f) = s"
  using assms by (simp add: login_def reply_def)

theorem login_missing_fields_no_lookup_witness:
  "falsy (Some [])
   \<and> resp (login platform_C all_down 5 alice_db no_session (Some (js ''alice'')) (Some [])) =
       \<lparr>status = 400, body = error_body ''Username and password are required''\<rparr>
   \<and> trace (login platform_C all_down 5 alice_db no_session (Some (js ''alice'')) (Some [])) = []
   \<and> resp (login platform_C all_up 5 alice_db no_session None (Some (js ''secret1''))) =
       \<lparr>status = 400, body = error_body ''Username and password are required''\<rparr>
   \<and> trace (login platform_C all_up 5 alice_db no_session None (Some (js ''secret1''))) = []"
  using login_missing_fields_no_lookup
          [where username_f = "Some (js ''alice'')" and password_f = "Some []"
             and h = platform_C and up = all_down and now = 5 and d = alice_db
             and s = no_session]
        login_missing_fields_no_lookup
          [where username_f = None and password_f = "Some (js ''secret1'')"
             and h = platform_C and up = all_up and now = 5 and d = alice_db
             and s = no_session]
  by (simp add: falsy_def)

section \<open>Order of the registration checks\<close>

text \<open>
  Claim C6.  Registration validates in a fixed order: presence of the three fields, then
  the username's length (3 to 50), then the e-mail's shape, then the password's length
  (at least 6).  The first check that fails gives the one 400 response, whatever the
  later checks would say, and nothing is sent to the store; when all four pass no
  validation error is produced.
\<close>

theorem register_validation_order:
  "(falsy username_f \<or> falsy email_f \<or> falsy password_f \<longrightarrow>
      register h up now d s username_f email_f password_f =
        \<lparr>resp = \<lparr>status = 400,
                 body = JObj [(''error'', JStr ''All fields are required''),
                              (''details'',
                               JStr ''Username, email, and password must be provided'')]\<rparr>,
         sess = s, store = d, trace = []\<rparr>)
   \<and> (u \<noteq> [] \<and> e \<noteq> [] \<and> p \<noteq> [] \<longrightarrow>
        (length u < 3 \<or> length u > 50 \<longrightarrow>
           register h up now d s (Some u) (Some e) (Some p) =
             reply 400 (error_body ''Username must be between 3 and 50 characters'') s d [])
      \<and> (3 \<le> length u \<and> length u \<le> 50 \<and> \<not> emailRegex_test e \<longrightarrow>
           register h up now d s (Some u) (Some e) (Some p) =
             reply 400 (error_body ''Please provide a valid email address'') s d [])
      \<and> (3 \<le> length u \<and> length u \<le> 50 \<and> emailRegex_test e \<and> length p < 6 \<longrightarrow>
           register h up now d s (Some u) (Some e) (Some p) =
             reply 400 (error_body ''Password must be at least 6 characters long'') s d [])
      \<and> (3 \<le> length u \<and> length u \<le> 50 \<and> emailRegex_test e \<and> 6 \<le> length p \<longrightarrow>
           register_validate (Some u) (Some e) (Some p) = Inr (u, e, p)))"
  by (auto simp add: register_def register_validate_def reply_def falsy_def
           split: option.splits)

theorem register_validation_order_witness:
  "register platform_C all_up 5 alice_db no_session (Some (js ''al'')) None (Some (js ''pw'')) =
     \<lparr>resp = \<lparr>status = 400,
              body = JObj [(''error'', JStr ''All fields are required''),
                           (''details'',
                            JStr ''Username, email, and password must be provided'')]\<rparr>,
      sess = no_session, store = alice_db, trace = []\<rparr>
   \<and> register platform_C all_up 5 alice_db no_session
         (Some (js ''al'')) (Some (js ''nomail'')) (Some (js ''pw'')) =
       reply 400 (error_body ''Username must be between 3 and 50 characters'') no_session alice_db []
   \<and> register platform_C all_up 5 alice_db no_session
         (Some (js ''alice'')) (Some (js ''nomail'')) (Some (js ''pw'')) =
       reply 400 (error_body ''Please provide a valid email address'') no_session alice_db []
   \<and> register platform_C all_up 5 alice_db no_session
         (Some (js ''alice'')) (Some (js ''a@x.com'')) (Some (js ''pw'')) =
       reply 400 (error_body ''Password must be at least 6 characters long'') no_session alice_db []
   \<and> register_validate (Some (js ''alice'')) (Some (js ''a@x.com'')) (Some (js ''secret1'')) =
       Inr (js ''alice'', js ''a@x.com'', js ''secret1'')"
proof -
  have e1: "\<not> emailRegex_test (js ''nomail'')" by code_simp
  have e2: "emailRegex_test (js ''a@x.com'')" by code_simp
  have l: "length (js ''al'') = 2" "length (js ''alice'') = 5" "length (js ''pw'') = 2"
          "length (js ''secret1'') = 7" "js ''nomail'' \<noteq> []" "js ''a@x.com'' \<noteq> []"
    by (simp_all add: js_def)
  have n: "js ''al'' \<noteq> []" "js ''alice'' \<noteq> []" "js ''pw'' \<noteq> []" "js ''secret1'' \<noteq> []"
    by (simp_all add: js_def)
  show ?thesis
    using register_validation_order
            [where username_f = "Some (js ''al'')" and email_f = "None"
               and password_f = "Some (js ''pw'')"
               and u = "js ''al''" and e = "js ''nomail''" and p = "js ''pw''"
               and h = platform_C and up = all_up and now = 5 and d = alice_db
               and s = no_session]
          register_validation_order
            [where username_f = "None" and email_f = "None" and password_f = "None"
               and u = "js ''alice''" and e = "js ''nomail''" and p = "js ''pw''"
               and h = platform_C and up = all_up and now = 5 and d = alice_db
               and s = no_session]
          register_validation_order
            [where username_f = "None" and email_f = "None" and password_f = "None"
               and u = "js ''alice''" and e = "js ''a@x.com''" and p = "js ''pw''"
               and h = platform_C and up = all_up and now = 5 and d = alice_db
               and s = no_session]
          register_validation_order
            [where username_f = "None" and email_f = "None" and password_f = "None"
               and u = "js ''alice''" and e = "js ''a@x.com''" and p = "js ''secret1''"
               and h = platform_C and up = all_up and now = 5 and d = alice_db
               and s = no_session]
          e1 e2 l n
    by (simp add: falsy_def)
qed

section \<open>Login failures look the same\<close>

text \<open>
  Claim C2.  With a non-empty username and password and a store that answers the lookup,
  a login whose username matches no active account and a login whose username matches an
  active account but whose password the hasher rejects get the same response: status 401
  with the body \<open>{error: "Invalid username or password"}\<close>.
\<close>

theorem login_failures_indistinguishable:
  assumes "u1 \<noteq> []" "p1 \<noteq> []" "u2 \<noteq> []" "p2 \<noteq> []"
    and "up (SelectLogin u1)" "up (SelectLogin u2)"
    and "\<forall>r \<in> set (rows d1). \<not> (is_active r \<and> LOWER h (username r) = LOWER h u1)"
    and "\<exists>r \<in> set (rows d2). is_active r \<and> LOWER h (username r) = LOWER h u2"
    and "\<forall>r \<in> set (rows d2). is_active r \<and> LOWER h (username r) = LOWER h u2
           \<longrightarrow> \<not> bcrypt_compare h p2 (password r)"
  shows "resp (login h up now1 d1 s1 (Some u1) (Some p1)) =
           \<lparr>status = 401, body = error_body ''Invalid username or password''\<rparr>
       \<and> resp (login h up now2 d2 s2 (Some u2) (Some p2)) =
           resp (login h up now1 d1 s1 (Some u1) (Some p1))"
proof -
  have a: "select_login h d1 u1 = []"
    using assms(7) by (auto simp add: select_login_def filter_empty_conv)
  obtain r rs where b: "select_login h d2 u2 = r # rs"
    using assms(8)
    by (cases "select_login h d2 u2") (auto simp add: select_login_def filter_empty_conv)
  have "r \<in> set (select_login h d2 u2)" using b by simp
  hence c: "\<not> bcrypt_compare h p2 (password r)"
    using assms(9) by (auto simp add: select_login_def)
  show ?thesis
    using assms(1-6) a b c by (simp add: login_def reply_def falsy_def)
qed

theorem login_failures_indistinguishable_witness:
  "resp (login platform_C all_up 5 alice_db no_session (Some (js ''bob'')) (Some (js ''secret1''))) =
     \<lparr>status = 401, body = error_body ''Invalid username or password''\<rparr>
   \<and> resp (login platform_C all_up 9 alice_db no_session (Some (js ''Alice'')) (Some (js ''wrong''))) =
       resp (login platform_C all_up 5 alice_db no_session (Some (js ''bob'')) (Some (js ''secret1'')))"
proof -
  have n: "js ''bob'' \<noteq> []" "js ''secret1'' \<noteq> []" "js ''Alice'' \<noteq> []" "js ''wrong'' \<noteq> []"
    by (simp_all add: js_def)
  have a: "\<forall>r \<in> set (rows alice_db).
             \<not> (is_active r \<and> LOWER platform_C (username r) = LOWER platform_C (js ''bob''))"
    by code_simp
  have b: "\<exists>r \<in> set (rows alice_db).
             is_active r \<and> LOWER platform_C (username r) = LOWER platform_C (js ''Alice'')"
    by code_simp
  have c: "\<forall>r \<in> set (rows alice_db).
             is_active r \<and> LOWER platform_C (username r) = LOWER platform_C (js ''Alice'')
             \<longrightarrow> \<not> bcrypt_compare platform_C (js ''wrong'') (password r)"
    by code_simp
  show ?thesis
    using login_failures_indistinguishable
            [where ?u1.0 = "js ''bob''" and ?p1.0 = "js ''secret1''" and ?u2.0 = "js ''Alice''"
               and ?p2.0 = "js ''wrong''" and up = all_up and ?d1.0 = alice_db
               and ?d2.0 = alice_db and h = platform_C and ?now1.0 = 5 and ?s1.0 = no_session
               and ?now2.0 = 9 and ?s2.0 = no_session, OF n _ _ a b c]
    by simp
qed

section \<open>The last login reported by a login\<close>

text \<open>
  Claim C10.  The \<open>lastLogin\<close> of a successful login's response is the \<open>last_login\<close> of
  the row as the lookup read it: null when the account never logged in, the time of the
  previous login otherwise.  It is not the time of this login, which the row in the table
  carries afterwards.
\<close>

theorem login_reports_previous_last_login:
  assumes "status (resp (login h up now d s username_f password_f)) = 200"
  shows "\<exists>u r rest.
           username_f = Some u \<and> select_login h d u = r # rest \<and> r \<in> set (rows d)
         \<and> body (resp (login h up now d s username_f password_f)) =
             JObj [(''message'', JStr ''Login successful''),
                   (''user'', JObj [(''id'', JNum (int (user_id r))),
                                    (''username'', JText (username r)),
                                    (''email'', JText (email r)),
                                    (''lastLogin'',
                                     (case last_login r of
                                        None \<Rightarrow> JNull | Some t \<Rightarrow> JTime t))])]
         \<and> store (login h up now d s username_f password_f) = update_last_login now d (user_id r)
         \<and> (\<forall>r' \<in> set (rows (store (login h up now d s username_f password_f))).
               user_id r' = user_id r \<longrightarrow> last_login r' = Some now)"
proof -
  obtain u p where up: "username_f = Some u" "password_f = Some p" "u \<noteq> []" "p \<noteq> []"
    using assms
    by (cases username_f; cases password_f)
       (auto simp add: login_def reply_def falsy_def split: if_splits)
  obtain r rest where r: "select_login h d u = r # rest"
    using assms up
    by (cases "select_login h d u") (auto simp add: login_def reply_def falsy_def split: if_splits)
  have "r \<in> set (select_login h d u)" using r by simp
  hence mem: "r \<in> set (rows d)" by (simp add: select_login_def)
  have upd: "\<forall>r' \<in> set (rows (update_last_login now d (user_id r))).
               user_id r' = user_id r \<longrightarrow> last_login r' = Some now"
    by (auto simp add: update_last_login_def)
  show ?thesis
    using assms up r mem upd
    by (auto simp add: login_def reply_def falsy_def split: if_splits)
qed

theorem login_reports_previous_last_login_witness:
  "status (resp (login platform_C all_up 5000 alice_db no_session
                   (Some (js ''Alice'')) (Some (js ''secret1'')))) = 200
   \<and> body (resp (login platform_C all_up 5000 alice_db no_session
                   (Some (js ''Alice'')) (Some (js ''secret1'')))) =
       JObj [(''message'', JStr ''Login successful''),
             (''user'', JObj [(''id'', JNum 1), (''username'', JText (js ''alice'')),
                              (''email'', JText (js ''alice@x.com'')), (''lastLogin'', JNull)])]
   \<and> store (login platform_C all_up 5000 alice_db no_session
               (Some (js ''Alice'')) (Some (js ''secret1''))) = alice_back_db
   \<and> status (resp (login platform_C all_up 9000 alice_back_db no_session
                     (Some (js ''Alice'')) (Some (js ''secret1'')))) = 200
   \<and> body (resp (login platform_C all_up 9000 alice_back_db no_session
                   (Some (js ''Alice'')) (Some (js ''secret1'')))) =
       JObj [(''message'', JStr ''Login successful''),
             (''user'', JObj [(''id'', JNum 1), (''username'', JText (js ''alice'')),
                              (''email'', JText (js ''alice@x.com'')),
                              (''lastLogin'', JTime 5000)])]
   \<and> rows (store (login platform_C all_up 9000 alice_back_db no_session
                     (Some (js ''Alice'')) (Some (js ''secret1'')))) =
       [alice_row\<lparr>last_login := Some 9000\<rparr>]"
proof -
  have st1: "status (resp (login platform_C all_up 5000 alice_db no_session
                             (Some (js ''Alice'')) (Some (js ''secret1'')))) = 200"
    by code_simp
  have st2: "status (resp (login platform_C all_up 9000 alice_back_db no_session
                             (Some (js ''Alice'')) (Some (js ''secret1'')))) = 200"
    by code_simp
  have sel1: "select_login platform_C alice_db (js ''Alice'') = [alice_row]"
    by code_simp
  have sel2: "select_login platform_C alice_back_db (js ''Alice'') =
                [alice_row\<lparr>last_login := Some 5000\<rparr>]"
    by code_simp
  have upd1: "update_last_login 5000 alice_db 1 = alice_back_db"
    by code_simp
  have upd2: "rows (update_last_login 9000 alice_back_db 1) = [alice_row\<lparr>last_login := Some 9000\<rparr>]"
    by code_simp
  have f: "user_id alice_row = 1" "username alice_row = js ''alice''"
          "email alice_row = js ''alice@x.com''" "last_login alice_row = None"
    by (simp_all add: alice_row_def)
  show ?thesis
    using login_reports_previous_last_login
            [where h = platform_C and up = all_up and now = 5000 and d = alice_db
               and s = no_session and username_f = "Some (js ''Alice'')"
               and password_f = "Some (js ''secret1'')", OF st1]
          login_reports_previous_last_login
            [where h = platform_C and up = all_up and now = 9000 and d = alice_back_db
               and s = no_session and username_f = "Some (js ''Alice'')"
               and password_f = "Some (js ''secret1'')", OF st2]
          st1 st2 sel1 sel2 upd1 upd2 f
    by auto
qed

section \<open>Profile\<close>

text \<open>
  Claim C7.  A profile request whose session carries no user id is answered 401.  With a
  user id in the session (ids start at 1) and a store that answers the query: when no
  row has that id, or only an inactive one, the answer is 404 "User account not found";
  otherwise it is 200 with the fields of an active row of that id and \<open>total_users\<close>
  equal to the number of all rows of the table, active or not.
\<close>

theorem profile_outcomes:
  "(userId s = None \<longrightarrow>
      resp (profile up now d s) = \<lparr>status = 401, body = error_body ''Authentication required''\<rparr>
      \<and> trace (profile up now d s) = [])
   \<and> (userId s = Some i \<and> i \<noteq> 0 \<and> up (SelectProfile i) \<longrightarrow>
        ((\<forall>r \<in> set (rows d). user_id r = i \<longrightarrow> \<not> is_active r) \<longrightarrow>
           resp (profile up now d s) =
             \<lparr>status = 404, body = error_body ''User account not found''\<rparr>)
      \<and> ((\<exists>r \<in> set (rows d). user_id r = i \<and> is_active r) \<longrightarrow>
           (\<exists>r \<in> set (rows d). user_id r = i \<and> is_active r \<and>
              resp (profile up now d s) =
                \<lparr>status = 200,
                 body = JObj [(''user'',
                               JObj [(''id'', JNum (int (user_id r))),
                                     (''username'', JText (username r)),
                                     (''email'', JText (email r)),
                                     (''created_at'', JTime (created_at r)),
                                     (''last_login'',
                                      (case last_login r of
                                         None \<Rightarrow> JNull | Some t \<Rightarrow> JTime t)),
                                     (''session_duration'', JNum (sessionDuration now s))]),
                              (''stats'',
                               JObj [(''total_users'', JNum (int (length (rows d))))])]\<rparr>)))"
proof -
  have none: "userId s = None \<Longrightarrow>
      resp (profile up now d s) = \<lparr>status = 401, body = error_body ''Authentication required''\<rparr>
      \<and> trace (profile up now d s) = []"
    by (simp add: profile_def reply_def)
  have nf: "userId s = Some i \<Longrightarrow> i \<noteq> 0 \<Longrightarrow> up (SelectProfile i) \<Longrightarrow>
            \<forall>r \<in> set (rows d). user_id r = i \<longrightarrow> \<not> is_active r \<Longrightarrow>
            resp (profile up now d s) =
              \<lparr>status = 404, body = error_body ''User account not found''\<rparr>"
  proof -
    assume a: "userId s = Some i" "i \<noteq> 0" "up (SelectProfile i)"
       "\<forall>r \<in> set (rows d). user_id r = i \<longrightarrow> \<not> is_active r"
    have "select_profile d i = []"
      using a(4) by (auto simp add: select_profile_def filter_empty_conv)
    thus ?thesis using a by (simp add: profile_def reply_def)
  qed
  have ok: "userId s = Some i \<Longrightarrow> i \<noteq> 0 \<Longrightarrow> up (SelectProfile i) \<Longrightarrow>
            \<exists>r \<in> set (rows d). user_id r = i \<and> is_active r \<Longrightarrow>
            \<exists>r \<in> set (rows d). user_id r = i \<and> is_active r \<and>
              resp (profile up now d s) =
                \<lparr>status = 200,
                 body = JObj [(''user'',
                               JObj [(''id'', JNum (int (user_id r))),
                                     (''username'', JText (username r)),
                                     (''email'', JText (email r)),
                                     (''created_at'', JTime (created_at r)),
                                     (''last_login'',
                                      (case last_login r of
                                         None \<Rightarrow> JNull | Some t \<Rightarrow> JTime t)),
                                     (''session_duration'', JNum (sessionDuration now s))]),
                              (''stats'',
                               JObj [(''total_users'', JNum (int (length (rows d))))])]\<rparr>"
  proof -
    assume a: "userId s = Some i" "i \<noteq> 0" "up (SelectProfile i)"
       "\<exists>r \<in> set (rows d). user_id r = i \<and> is_active r"
    obtain r rs where f: "filter (\<lambda>r. user_id r = i \<and> is_active r) (rows d) = r # rs"
      using a(4) by (cases "filter (\<lambda>r. user_id r = i \<and> is_active r) (rows d)")
                    (auto simp add: filter_empty_conv)
    have "r \<in> set (filter (\<lambda>r. user_id r = i \<and> is_active r) (rows d))"
      using f by simp
    hence m: "r \<in> set (rows d)" "user_id r = i" "is_active r" by simp_all
    have "select_profile d i = (r, length (rows d)) # map (\<lambda>r. (r, length (rows d))) rs"
      using f by (simp add: select_profile_def)
    hence "resp (profile up now d s) =
                \<lparr>status = 200,
                 body = JObj [(''user'',
                               JObj [(''id'', JNum (int (user_id r))),
                                     (''username'', JText (username r)),
                                     (''email'', JText (email r)),
                                     (''created_at'', JTime (created_at r)),
                                     (''last_login'',
                                      (case last_login r of
                                         None \<Rightarrow> JNull | Some t \<Rightarrow> JTime t)),
                                     (''session_duration'', JNum (sessionDuration now s))]),
                              (''stats'',
                               JObj [(''total_users'', JNum (int (length (rows d))))])]\<rparr>"
      using a(1-3) by (simp add: profile_def reply_def)
    thus ?thesis using m by blast
  qed
  show ?thesis using none nf ok by blast
qed

theorem profile_outcomes_witness:
  "resp (profile all_up 9000 two_db no_session) =
     \<lparr>status = 401, body = error_body ''Authentication required''\<rparr>
   \<and> resp (profile all_up 9000 two_db
             \<lparr>userId = Some 2, session_username = Some (js ''bob''), loginTime = Some 3000\<rparr>) =
       \<lparr>status = 404, body = error_body ''User account not found''\<rparr>
   \<and> resp (profile all_up 9000 two_db
             \<lparr>userId = Some 7, session_username = Some (js ''eve''), loginTime = Some 3000\<rparr>) =
       \<lparr>status = 404, body = error_body ''User account not found''\<rparr>
   \<and> resp (profile all_up 9000 two_db
             \<lparr>userId = Some 1, session_username = Some (js ''alice''), loginTime = Some 3000\<rparr>) =
       \<lparr>status = 200,
        body = JObj [(''user'', JObj [(''id'', JNum 1), (''username'', JText (js ''alice'')),
                                      (''email'', JText (js ''alice@x.com'')),
                                      (''created_at'', JTime 1000), (''last_login'', JNull),
                                      (''session_duration'', JNum 6)]),
                     (''stats'', JObj [(''total_users'', JNum 2)])]\<rparr>
   \<and> resp (profile all_up 9000 alice_back_db
             \<lparr>userId = Some 1, session_username = Some (js ''alice''), loginTime = Some 5000\<rparr>) =
       \<lparr>status = 200,
        body = JObj [(''user'', JObj [(''id'', JNum 1), (''username'', JText (js ''alice'')),
                                      (''email'', JText (js ''alice@x.com'')),
                                      (''created_at'', JTime 1000),
                                      (''last_login'', JTime 5000),
                                      (''session_duration'', JNum 4)]),
                     (''stats'', JObj [(''total_users'', JNum 1)])]\<rparr>"
  using profile_outcomes [where s = no_session and up = all_up and now = 9000 and d = two_db]
        profile_outcomes
          [where s = "\<lparr>userId = Some 2, session_username = Some (js ''bob''),
                       loginTime = Some 3000\<rparr>"
             and i = 2 and up = all_up and now = 9000 and d = two_db]
        profile_outcomes
          [where s = "\<lparr>userId = Some 7, session_username = Some (js ''eve''),
                       loginTime = Some 3000\<rparr>"
             and i = 7 and up = all_up and now = 9000 and d = two_db]
        profile_outcomes
          [where s = "\<lparr>userId = Some 1, session_username = Some (js ''alice''),
                       loginTime = Some 3000\<rparr>"
             and i = 1 and up = all_up and now = 9000 and d = two_db]
        profile_outcomes
          [where s = "\<lparr>userId = Some 1, session_username = Some (js ''alice''),
                       loginTime = Some 5000\<rparr>"
             and i = 1 and up = all_up and now = 9000 and d = alice_back_db]
  by (simp add: two_db_def alice_back_db_def alice_row_def bob_row_def no_session_def
        sessionDuration_def)

section \<open>A failing last-login update\<close>

text \<open>
  Claim C3 says that a failure of the last-login update leaves the login successful.  The
  handler awaits the \<^verbatim>\<open>UPDATE\<close> inside its \<^verbatim>\<open>try\<close> block with no handler of its own:
  with Alice's correct password and a store that refuses only the \<^verbatim>\<open>UPDATE\<close>, the response
  is 500 and the session stays empty.
\<close>

theorem login_update_failure_counterexample:
  "select_login platform_C alice_db (js ''alice'') = [alice_row]
   \<and> bcrypt_compare platform_C (js ''secret1'') (password alice_row)
   \<and> resp (login platform_C update_down 5000 alice_db no_session
             (Some (js ''alice'')) (Some (js ''secret1''))) =
       \<lparr>status = 500, body = error_body ''Login failed due to server error''\<rparr>
   \<and> sess (login platform_C update_down 5000 alice_db no_session
             (Some (js ''alice'')) (Some (js ''secret1''))) =
       no_session"
  by code_simp

text \<open>
  Claim C3, amended.  After a successful password verification: when the last-login update
  succeeds, the login answers 200 and puts the account's id into the session; when the
  update fails, the login answers 500 "Login failed due to server error", the session is
  left as it was and the table is unchanged.
\<close>

theorem login_update_failure_is_fatal:
  assumes "u \<noteq> []" "p \<noteq> []" "up (SelectLogin u)"
    and "select_login h d u = r # rest" "bcrypt_compare h p (password r)"
  shows "(\<not> up (UpdateLastLogin (user_id r)) \<longrightarrow>
            resp (login h up now d s (Some u) (Some p)) =
              \<lparr>status = 500, body = error_body ''Login failed due to server error''\<rparr>
          \<and> sess (login h up now d s (Some u) (Some p)) = s
          \<and> store (login h up now d s (Some u) (Some p)) = d)
       \<and> (up (UpdateLastLogin (user_id r)) \<longrightarrow>
            status (resp (login h up now d s (Some u) (Some p))) = 200
          \<and> userId (sess (login h up now d s (Some u) (Some p))) = Some (user_id r)
          \<and> store (login h up now d s (Some u) (Some p)) = update_last_login now d (user_id r))"
  using assms by (simp add: login_def reply_def falsy_def)

theorem login_update_failure_is_fatal_witness:
  "resp (login platform_C update_down 5000 alice_db no_session
           (Some (js ''alice'')) (Some (js ''secret1''))) =
     \<lparr>status = 500, body = error_body ''Login failed due to server error''\<rparr>
   \<and> sess (login platform_C update_down 5000 alice_db no_session
             (Some (js ''alice'')) (Some (js ''secret1''))) =
       no_session
   \<and> status (resp (login platform_C all_up 5000 alice_db no_session
                     (Some (js ''alice'')) (Some (js ''secret1'')))) = 200
   \<and> userId (sess (login platform_C all_up 5000 alice_db no_session
                     (Some (js ''alice'')) (Some (js ''secret1'')))) =
       Some 1"
proof -
  have sel: "select_login platform_C alice_db (js ''alice'') = [alice_row]" by code_simp
  have cmp: "bcrypt_compare platform_C (js ''secret1'') (password alice_row)" by code_simp
  have n: "js ''alice'' \<noteq> []" "js ''secret1'' \<noteq> []" by (simp_all add: js_def)
  have i: "user_id alice_row = 1" by (simp add: alice_row_def)
  show ?thesis
    using login_update_failure_is_fatal
            [where u = "js ''alice''" and p = "js ''secret1''" and up = update_down
               and d = alice_db and r = alice_row and rest = "[]" and h = platform_C
               and now = 5000 and s = no_session, OF n _ sel cmp]
          login_update_failure_is_fatal
            [where u = "js ''alice''" and p = "js ''secret1''" and up = all_up
               and d = alice_db and r = alice_row and rest = "[]" and h = platform_C
               and now = 5000 and s = no_session, OF n _ sel cmp]
          i
    by simp
qed

section \<open>Lowercase storage\<close>

text \<open>
  Claim C9.  Registration lowercases the username and the e-mail before it looks up or
  stores anything.  For a request that passes validation, the first thing sent to the
  store is the lookup with the lowercased forms as its parameters, and every statement
  of the handler carries them.  The lookup compares the lowercased forms with the stored
  strings: where a row has the lowercased username or e-mail and the store answers, the
  request is answered 400, nothing more is sent and the table is unchanged; where no row
  has them, the hash and the insert of the lowercased forms follow.  Every row that a
  registration adds has the lowercased forms as its username and e-mail.  So, as the
  engine's \<^verbatim>\<open>toLowerCase\<close> leaves a lowercased string as it is, "all stored usernames
  and e-mails are lowercase" holds of the empty table and is kept by registration, login
  and profile.
\<close>

theorem register_stores_lowercase:
  "stored_lowercase h empty_db
   \<and> (stored_lowercase h d
        \<and> lowercase h (toLowerCase h u) \<and> lowercase h (toLowerCase h e) \<longrightarrow>
        stored_lowercase h (store (register h up now d s (Some u) (Some e) (Some p))))
   \<and> (username_f = None \<or> email_f = None \<or> password_f = None \<longrightarrow>
        store (register h up now d s username_f email_f password_f) = d
        \<and> trace (register h up now d s username_f email_f password_f) = [])
   \<and> (stored_lowercase h d \<longrightarrow>
        stored_lowercase h (store (login h up now d s username_f password_f))
        \<and> store (profile up now d s) = d)
   \<and> (register_validate (Some u) (Some e) (Some p) = Inr (u, e, p) \<longrightarrow>
        take 1 (trace (register h up now d s (Some u) (Some e) (Some p))) =
          [DbQuery (SelectExisting (toLowerCase h u) (toLowerCase h e))]
        \<and> (up (SelectExisting (toLowerCase h u) (toLowerCase h e)) \<longrightarrow>
             ((\<exists>r \<in> set (rows d). username r = toLowerCase h u \<or> email r = toLowerCase h e)
                \<longrightarrow> status (resp (register h up now d s (Some u) (Some e) (Some p))) = 400
                  \<and> store (register h up now d s (Some u) (Some e) (Some p)) = d
                  \<and> trace (register h up now d s (Some u) (Some e) (Some p)) =
                      [DbQuery (SelectExisting (toLowerCase h u) (toLowerCase h e))])
           \<and> (\<not> (\<exists>r \<in> set (rows d). username r = toLowerCase h u \<or> email r = toLowerCase h e)
                \<longrightarrow> trace (register h up now d s (Some u) (Some e) (Some p)) =
                      [DbQuery (SelectExisting (toLowerCase h u) (toLowerCase h e)),
                       BcryptHash p,
                       DbQuery (InsertUser (toLowerCase h u) (toLowerCase h e)
                                  (bcrypt_hash h p))])))
   \<and> (\<forall>q. DbQuery q \<in> set (trace (register h up now d s (Some u) (Some e) (Some p)))
          \<longrightarrow> lowered_query h u e q)
   \<and> (\<forall>r \<in> set (rows (store (register h up now d s (Some u) (Some e) (Some p)))).
          r \<notin> set (rows d) \<longrightarrow> username r = toLowerCase h u \<and> email r = toLowerCase h e)"
proof -
  let ?R = "register h up now d s (Some u) (Some e) (Some p)"
  let ?q = "SelectExisting (toLowerCase h u) (toLowerCase h e)"
  let ?i = "InsertUser (toLowerCase h u) (toLowerCase h e) (bcrypt_hash h p)"
  have c1: "stored_lowercase h empty_db"
    by (simp add: stored_lowercase_def empty_db_def)
  have c2: "stored_lowercase h (store ?R)"
    if "stored_lowercase h d" "lowercase h (toLowerCase h u)" "lowercase h (toLowerCase h e)"
    using that by (rule register_lowercase)
  have c3: "store (register h up now d s username_f email_f password_f) = d
            \<and> trace (register h up now d s username_f email_f password_f) = []"
    if "username_f = None \<or> email_f = None \<or> password_f = None"
    using that by (rule register_missing_field)
  have c4: "stored_lowercase h (store (login h up now d s username_f password_f))
            \<and> store (profile up now d s) = d"
    if "stored_lowercase h d"
    using that login_lowercase profile_store by simp
  have tr: "trace ?R = [DbQuery ?q] \<or> trace ?R = [DbQuery ?q, BcryptHash p, DbQuery ?i]"
    if v: "register_validate (Some u) (Some e) (Some p) = Inr (u, e, p)"
    using register_valid [OF v, of h up now d s]
    by (cases "fst (register_check h up d u e)") simp_all
  have c5a: "take 1 (trace ?R) = [DbQuery ?q]"
    if v: "register_validate (Some u) (Some e) (Some p) = Inr (u, e, p)"
    using tr [OF v] by auto
  have c5b: "status (resp ?R) = 400 \<and> store ?R = d \<and> trace ?R = [DbQuery ?q]"
    if v: "register_validate (Some u) (Some e) (Some p) = Inr (u, e, p)"
      and q: "up ?q"
      and dup: "\<exists>r \<in> set (rows d). username r = toLowerCase h u \<or> email r = toLowerCase h e"
  proof -
    obtain r where "fst (register_check h up d u e) = Some r" "status r = 400"
      using register_check_conflict [where up = up and h = h and u = u and e = e and d = d, OF q dup]
      by blast
    thus ?thesis using register_valid [OF v, of h up now d s] by simp
  qed
  have c5c: "trace ?R = [DbQuery ?q, BcryptHash p, DbQuery ?i]"
    if v: "register_validate (Some u) (Some e) (Some p) = Inr (u, e, p)"
      and q: "up ?q"
      and free: "\<not> (\<exists>r \<in> set (rows d). username r = toLowerCase h u
                                      \<or> email r = toLowerCase h e)"
  proof -
    have "fst (register_check h up d u e) = None"
      using q free by (simp add: register_check_None select_existing_Nil)
    thus ?thesis using register_valid [OF v, of h up now d s] by simp
  qed
  have c6: "lowered_query h u e q" if m: "DbQuery q \<in> set (trace ?R)" for q
  proof (cases "register_validate (Some u) (Some e) (Some p)")
    case (Inl r)
    thus ?thesis using m by (simp add: register_def)
  next
    case (Inr t)
    obtain u0 e0 p0 where t: "t = (u0, e0, p0)" by (cases t) auto
    have "u0 = u" "e0 = e" "p0 = p"
      using validate_InrD [of "Some u" "Some e" "Some p" u0 e0 p0] Inr t by simp_all
    hence v: "register_validate (Some u) (Some e) (Some p) = Inr (u, e, p)"
      using Inr t by simp
    show ?thesis using tr [OF v] m by auto
  qed
  have c7: "username r = toLowerCase h u \<and> email r = toLowerCase h e"
    if "r \<in> set (rows (store ?R))" "r \<notin> set (rows d)" for r
    using that by (rule register_new_rows)
  show ?thesis
  proof (intro conjI impI allI ballI)
    show "stored_lowercase h empty_db" by (rule c1)
  qed (use c2 c3 c4 c5a c5b c5c c6 c7 in \<open>blast+\<close>)
qed


theorem register_stores_lowercase_witness:
  "stored_lowercase platform_C alice_db
   \<and> stored_lowercase platform_C
        (store (register platform_C all_up 2000 alice_db no_session
                  (Some (js ''Bob'')) (Some (js ''Bob@X.com'')) (Some (js ''hunter22''))))
   \<and> trace (register platform_C all_up 2000 alice_db no_session
               (Some (js ''Bob'')) (Some (js ''Bob@X.com'')) (Some (js ''hunter22''))) =
       [DbQuery (SelectExisting (js ''bob'') (js ''bob@x.com'')),
        BcryptHash (js ''hunter22''),
        DbQuery (InsertUser (js ''bob'') (js ''bob@x.com'') (js ''$2b$12$hunter22''))]
   \<and> username (last (rows (store (register platform_C all_up 2000 alice_db no_session
                   (Some (js ''Bob'')) (Some (js ''Bob@X.com'')) (Some (js ''hunter22'')))))) =
       js ''bob''
   \<and> email (last (rows (store (register platform_C all_up 2000 alice_db no_session
                (Some (js ''Bob'')) (Some (js ''Bob@X.com'')) (Some (js ''hunter22'')))))) =
       js ''bob@x.com''
   \<and> status (resp (register platform_C all_up 2000 alice_db no_session
                     (Some (js ''ALICE'')) (Some (js ''Other@X.com'')) (Some (js ''hunter22'')))) =
       400
   \<and> trace (register platform_C all_up 2000 alice_db no_session
               (Some (js ''ALICE'')) (Some (js ''Other@X.com'')) (Some (js ''hunter22''))) =
       [DbQuery (SelectExisting (js ''alice'') (js ''other@x.com''))]"
proof -
  let ?R = "register platform_C all_up 2000 alice_db no_session
              (Some (js ''Bob'')) (Some (js ''Bob@X.com'')) (Some (js ''hunter22''))"
  have inv: "stored_lowercase platform_C alice_db" by code_simp
  have idem: "lowercase platform_C (toLowerCase platform_C (js ''Bob''))"
             "lowercase platform_C (toLowerCase platform_C (js ''Bob@X.com''))"
    by code_simp+
  have v1: "register_validate (Some (js ''Bob'')) (Some (js ''Bob@X.com'')) (Some (js ''hunter22'')) =
              Inr (js ''Bob'', js ''Bob@X.com'', js ''hunter22'')"
    by code_simp
  have v2: "register_validate (Some (js ''ALICE'')) (Some (js ''Other@X.com''))
              (Some (js ''hunter22'')) =
              Inr (js ''ALICE'', js ''Other@X.com'', js ''hunter22'')"
    by code_simp
  have free: "\<not> (\<exists>r \<in> set (rows alice_db).
                   username r = toLowerCase platform_C (js ''Bob'')
                   \<or> email r = toLowerCase platform_C (js ''Bob@X.com''))"
    by code_simp
  have dup: "\<exists>r \<in> set (rows alice_db).
               username r = toLowerCase platform_C (js ''ALICE'')
               \<or> email r = toLowerCase platform_C (js ''Other@X.com'')"
    by code_simp
  have new: "last (rows (store ?R)) \<in> set (rows (store ?R))"
            "last (rows (store ?R)) \<notin> set (rows alice_db)"
    by code_simp+
  have l: "toLowerCase platform_C (js ''Bob'') = js ''bob''"
          "toLowerCase platform_C (js ''Bob@X.com'') = js ''bob@x.com''"
          "toLowerCase platform_C (js ''ALICE'') = js ''alice''"
          "toLowerCase platform_C (js ''Other@X.com'') = js ''other@x.com''"
          "bcrypt_hash platform_C (js ''hunter22'') = js ''$2b$12$hunter22''"
    by code_simp+
  note B = register_stores_lowercase
             [where d = alice_db and h = platform_C and up = all_up and now = 2000
                and s = no_session and username_f = None and email_f = None
                and password_f = None
                and u = "js ''Bob''" and e = "js ''Bob@X.com''" and p = "js ''hunter22''"]
  note A = register_stores_lowercase
             [where d = alice_db and h = platform_C and up = all_up and now = 2000
                and s = no_session and username_f = None and email_f = None
                and password_f = None
                and u = "js ''ALICE''" and e = "js ''Other@X.com''" and p = "js ''hunter22''"]
  have w1: "stored_lowercase platform_C (store ?R)"
    using B inv idem by blast
  have w2: "trace ?R =
              [DbQuery (SelectExisting (toLowerCase platform_C (js ''Bob''))
                          (toLowerCase platform_C (js ''Bob@X.com''))),
               BcryptHash (js ''hunter22''),
               DbQuery (InsertUser (toLowerCase platform_C (js ''Bob''))
                          (toLowerCase platform_C (js ''Bob@X.com''))
                          (bcrypt_hash platform_C (js ''hunter22'')))]"
    using B v1 free by (simp del: all_up.simps add: all_up.simps [of "SelectExisting _ _"])
  have w3: "username (last (rows (store ?R))) = toLowerCase platform_C (js ''Bob'')
            \<and> email (last (rows (store ?R))) = toLowerCase platform_C (js ''Bob@X.com'')"
    using B new by blast
  have w4: "status (resp (register platform_C all_up 2000 alice_db no_session
                     (Some (js ''ALICE'')) (Some (js ''Other@X.com'')) (Some (js ''hunter22'')))) =
              400
            \<and> trace (register platform_C all_up 2000 alice_db no_session
                 (Some (js ''ALICE'')) (Some (js ''Other@X.com'')) (Some (js ''hunter22''))) =
                [DbQuery (SelectExisting (toLowerCase platform_C (js ''ALICE''))
                            (toLowerCase platform_C (js ''Other@X.com'')))]"
    using A v2 dup by simp
  show ?thesis
    using inv w1 w2 w3 w4 by (simp only: l)
qed

section \<open>Register, then log in\<close>

text \<open>
  Registration stores the username as the engine's \<^verbatim>\<open>toLowerCase\<close> gives it, and the
  login lookup compares the store's \<^verbatim>\<open>LOWER\<close> of the stored name with the store's
  \<^verbatim>\<open>LOWER\<close> of the name typed.  Where the two functions agree on the names involved (the
  store's \<^verbatim>\<open>LOWER\<close> leaves every stored name and the new lowercased name as they are, and
  takes the name typed at login to the lowercased name), a registration that answered 201
  is followed by a login that answers 200 with the same account id, for a hasher that
  accepts a password against its own hash and a store that answers.
\<close>

lemma register_then_login_agreeing:
  assumes reg: "status (resp (register h up now d s (Some u) (Some e) (Some p))) = 201"
    and hasher: "bcrypt_compare h p (bcrypt_hash h p)"
    and stored: "\<forall>r \<in> set (rows d). LOWER h (username r) = username r"
    and new: "LOWER h (toLowerCase h u) = toLowerCase h u"
    and typed: "LOWER h u' = toLowerCase h u"
    and nonempty: "u' \<noteq> []"
    and up1: "up' (SelectLogin u')"
    and up2: "\<forall>i. up' (UpdateLastLogin i)"
  shows "\<exists>i. response_user_id (resp (register h up now d s (Some u) (Some e) (Some p))) =
               Some (JNum (int i))
            \<and> status (resp (login h up' now' (store (register h up now d s (Some u) (Some e) (Some p)))
                               s' (Some u') (Some p))) = 200
            \<and> response_user_id
                 (resp (login h up' now' (store (register h up now d s (Some u) (Some e) (Some p)))
                          s' (Some u') (Some p))) = Some (JNum (int i))
            \<and> userId (sess (login h up' now'
                               (store (register h up now d s (Some u) (Some e) (Some p)))
                               s' (Some u') (Some p))) = Some i"
proof -
  let ?R = "register h up now d s (Some u) (Some e) (Some p)"
  let ?r = "\<lparr>user_id = users_id_seq d + 1, username = toLowerCase h u,
             email = toLowerCase h e, password = bcrypt_hash h p,
             created_at = now, updated_at = now, last_login = None, is_active = True\<rparr>"
  have v: "register_validate (Some u) (Some e) (Some p) = Inr (u, e, p)"
    and chk: "fst (register_check h up d u e) = None"
    and ins: "status (fst (register_insert h up now d s u e p)) = 201"
    and rs: "resp ?R = fst (register_insert h up now d s u e p)"
    and st: "store ?R = fst (snd (snd (register_insert h up now d s u e p)))"
    using register_201D [OF reg] by simp_all
  have len: "6 \<le> length p" using validate_InrD [OF v] by simp
  note D = register_insert_201D [OF ins]
  have rows: "rows (store ?R) = rows d @ [?r]"
    using st D by simp
  have rid: "response_user_id (resp ?R) = Some (JNum (int (users_id_seq d + 1)))"
    using rs D by (simp add: response_user_id_def json_get_def)
  have free: "\<forall>r \<in> set (rows d). username r \<noteq> toLowerCase h u"
    using chk by (simp add: register_check_None select_existing_Nil)
  have old: "filter (\<lambda>r. LOWER h (username r) = LOWER h u' \<and> is_active r) (rows d) = []"
    using free stored typed by (auto simp add: filter_empty_conv)
  have sel: "select_login h (store ?R) u' = [?r]"
    using rows old new typed by (simp add: select_login_def)
  have ne: "p \<noteq> []" using len by auto
  let ?L = "login h up' now' (store ?R) s' (Some u') (Some p)"
  have L: "status (resp ?L) = 200
           \<and> response_user_id (resp ?L) = Some (JNum (int (users_id_seq d + 1)))
           \<and> userId (sess ?L) = Some (users_id_seq d + 1)"
    using sel ne nonempty hasher up1 up2
    by (simp add: login_def reply_def falsy_def response_user_id_def json_get_def)
  show ?thesis using rid L by blast
qed

text \<open>The case of Alice, who registers and logs in with her name in another case.\<close>

lemma register_then_login_agreeing_example:
  "status (resp (login platform_C all_up 5000
                   (store (register platform_C all_up 1000 empty_db no_session
                             (Some (js ''Alice'')) (Some (js ''Alice@X.com''))
                             (Some (js ''secret1''))))
                   no_session (Some (js ''aLiCe'')) (Some (js ''secret1'')))) = 200
   \<and> response_user_id
        (resp (login platform_C all_up 5000
                 (store (register platform_C all_up 1000 empty_db no_session
                           (Some (js ''Alice'')) (Some (js ''Alice@X.com''))
                           (Some (js ''secret1''))))
                 no_session (Some (js ''aLiCe'')) (Some (js ''secret1'')))) = Some (JNum 1)"
proof -
  have reg: "status (resp (register platform_C all_up 1000 empty_db no_session
                             (Some (js ''Alice'')) (Some (js ''Alice@X.com''))
                             (Some (js ''secret1'')))) = 201"
    by code_simp
  have hs: "bcrypt_compare platform_C (js ''secret1'') (bcrypt_hash platform_C (js ''secret1''))"
    by code_simp
  have st: "\<forall>r \<in> set (rows empty_db). LOWER platform_C (username r) = username r"
    by (simp add: empty_db_def)
  have new: "LOWER platform_C (toLowerCase platform_C (js ''Alice'')) =
               toLowerCase platform_C (js ''Alice'')"
    by code_simp
  have typed: "LOWER platform_C (js ''aLiCe'') = toLowerCase platform_C (js ''Alice'')"
    by code_simp
  have ne: "js ''aLiCe'' \<noteq> []" by (simp add: js_def)
  have rid: "response_user_id (resp (register platform_C all_up 1000 empty_db no_session
                             (Some (js ''Alice'')) (Some (js ''Alice@X.com''))
                             (Some (js ''secret1'')))) = Some (JNum 1)"
    by code_simp
  show ?thesis
    using register_then_login_agreeing
            [where d = empty_db and h = platform_C and up = all_up and now = 1000
               and s = no_session and u = "js ''Alice''" and e = "js ''Alice@X.com''"
               and p = "js ''secret1''" and u' = "js ''aLiCe''" and up' = all_up
               and now' = 5000 and s' = no_session, OF reg hs st new typed ne]
          rid
    by simp
qed

text \<open>
  Claim C1 says that a registration followed at once by a login with the same username
  and password succeeds, for every valid triple.  The handlers miss this for usernames
  on which the two lowercasings differ.  A registration of the name U+00C9 \<^verbatim>\<open>COLE\<close> on
  a database in the C locale answers 201 and stores the name with U+00E9 in front; the
  login with the very same name and password finds no row, since the store's \<^verbatim>\<open>LOWER\<close>
  leaves U+00C9 as it is, and answers 401.  The name U+0130 \<^verbatim>\<open>stanbul\<close> is stored as
  U+0069 U+0307 \<^verbatim>\<open>stanbul\<close>, which no \<^verbatim>\<open>LOWER\<close> of the name typed gives: the login
  answers 401 in the C locale and in a UTF-8 locale.
\<close>

theorem register_then_login_failing_input:
  "status (resp (register platform_C all_up 1000 empty_db no_session
                   (Some ecole) (Some (js ''e@x.com'')) (Some (js ''secret1'')))) = 201
   \<and> bcrypt_compare platform_C (js ''secret1'') (bcrypt_hash platform_C (js ''secret1''))
   \<and> resp (login platform_C all_up 5000
             (store (register platform_C all_up 1000 empty_db no_session
                       (Some ecole) (Some (js ''e@x.com'')) (Some (js ''secret1''))))
             no_session (Some ecole) (Some (js ''secret1''))) =
       \<lparr>status = 401, body = error_body ''Invalid username or password''\<rparr>
   \<and> status (resp (register platform_C all_up 1000 empty_db no_session
                     (Some istanbul) (Some (js ''i@x.com'')) (Some (js ''secret1'')))) = 201
   \<and> resp (login platform_C all_up 5000
             (store (register platform_C all_up 1000 empty_db no_session
                       (Some istanbul) (Some (js ''i@x.com'')) (Some (js ''secret1''))))
             no_session (Some istanbul) (Some (js ''secret1''))) =
       \<lparr>status = 401, body = error_body ''Invalid username or password''\<rparr>
   \<and> status (resp (register platform_utf8 all_up 1000 empty_db no_session
                     (Some istanbul) (Some (js ''i@x.com'')) (Some (js ''secret1'')))) = 201
   \<and> resp (login platform_utf8 all_up 5000
             (store (register platform_utf8 all_up 1000 empty_db no_session
                       (Some istanbul) (Some (js ''i@x.com'')) (Some (js ''secret1''))))
             no_session (Some istanbul) (Some (js ''secret1''))) =
       \<lparr>status = 401, body = error_body ''Invalid username or password''\<rparr>"
  by code_simp

section \<open>The message of a registration conflict\<close>

text \<open>
  Claim C5 says that every duplicate registration, the losing side of a race included,
  is answered with a message that names the conflicting field.  When two registrations
  of Alice's name both pass their lookup before either inserts, the second insert is
  rejected by the unique constraint and the answer is "Username or email already exists",
  which names neither field.
\<close>

theorem racing_duplicate_counterexample:
  "snd (snd (run platform_C all_up 7000 [True, False, True, False]
               (empty_db, first_request, second_request))) =
     Finished \<lparr>status = 400, body = error_body ''Username or email already exists''\<rparr>
   \<and> error_body ''Username or email already exists'' \<noteq>
       error_body ''This username is already registered''
   \<and> error_body ''Username or email already exists'' \<noteq>
       error_body ''This email is already registered''"
  by code_simp

text \<open>
  Claim C5, amended.  On a table whose stored names are lowercase, a valid registration
  whose username or e-mail duplicates, in any case variant, a row that its lookup sees
  is answered 400 with "This username is already registered" or "This email is already
  registered", and the field named does conflict; the table and session are unchanged.
  When the duplicate is met only by the insert (the losing side of a concurrent duplicate
  registration), the answer is 400 with "Username or email already exists".
\<close>

theorem register_conflict_message:
  "(stored_lowercase h d
    \<and> register_validate (Some u) (Some e) (Some p) = Inr (u, e, p)
    \<and> up (SelectExisting (toLowerCase h u) (toLowerCase h e))
    \<and> (\<exists>r \<in> set (rows d). toLowerCase h (username r) = toLowerCase h u
                           \<or> toLowerCase h (email r) = toLowerCase h e)
    \<longrightarrow> ((resp (register h up now d s (Some u) (Some e) (Some p)) =
              \<lparr>status = 400, body = error_body ''This username is already registered''\<rparr>
            \<and> (\<exists>r \<in> set (rows d). username r = toLowerCase h u))
           \<or> (resp (register h up now d s (Some u) (Some e) (Some p)) =
                 \<lparr>status = 400, body = error_body ''This email is already registered''\<rparr>
               \<and> (\<exists>r \<in> set (rows d). email r = toLowerCase h e)))
          \<and> store (register h up now d s (Some u) (Some e) (Some p)) = d
          \<and> sess (register h up now d s (Some u) (Some e) (Some p)) = s)
   \<and> (char_length (toLowerCase h u) \<le> 50 \<and> char_length (toLowerCase h e) \<le> 100
      \<and> char_length (bcrypt_hash h p) \<le> 255
      \<and> up (InsertUser (toLowerCase h u) (toLowerCase h e) (bcrypt_hash h p))
      \<and> (\<exists>r \<in> set (rows d). username r = toLowerCase h u \<or> email r = toLowerCase h e)
      \<longrightarrow> fst (register_insert h up now d s u e p) =
            \<lparr>status = 400, body = error_body ''Username or email already exists''\<rparr>)"
proof -
  have part1: "(resp (register h up now d s (Some u) (Some e) (Some p)) =
              \<lparr>status = 400, body = error_body ''This username is already registered''\<rparr>
            \<and> (\<exists>r \<in> set (rows d). username r = toLowerCase h u))
           \<or> (resp (register h up now d s (Some u) (Some e) (Some p)) =
                 \<lparr>status = 400, body = error_body ''This email is already registered''\<rparr>
               \<and> (\<exists>r \<in> set (rows d). email r = toLowerCase h e))"
      and part1': "store (register h up now d s (Some u) (Some e) (Some p)) = d"
                  "sess (register h up now d s (Some u) (Some e) (Some p)) = s"
    if inv: "stored_lowercase h d"
      and v: "register_validate (Some u) (Some e) (Some p) = Inr (u, e, p)"
      and q: "up (SelectExisting (toLowerCase h u) (toLowerCase h e))"
      and dup: "\<exists>r \<in> set (rows d). toLowerCase h (username r) = toLowerCase h u
                                  \<or> toLowerCase h (email r) = toLowerCase h e"
  proof -
    have low: "\<forall>r \<in> set (rows d). toLowerCase h (username r) = username r
                                 \<and> toLowerCase h (email r) = email r"
      using inv by (simp add: stored_lowercase_def lowercase_def list_all_iff)
    hence "select_existing d (toLowerCase h u) (toLowerCase h e) \<noteq> []"
      using dup by (auto simp add: select_existing_def filter_empty_conv)
    then obtain x xs where sel: "select_existing d (toLowerCase h u) (toLowerCase h e) = x # xs"
      by (cases "select_existing d (toLowerCase h u) (toLowerCase h e)") auto
    have "x \<in> set (select_existing d (toLowerCase h u) (toLowerCase h e))" using sel by simp
    hence x: "x \<in> set (rows d)" "username x = toLowerCase h u \<or> email x = toLowerCase h e"
      by (simp_all add: select_existing_def)
    have lx: "toLowerCase h (username x) = username x" using low x(1) by simp
    have chk: "fst (register_check h up d u e) =
                 Some \<lparr>status = 400,
                       body = error_body (''This '' @ (if username x = toLowerCase h u
                                                        then ''username'' else ''email'')
                                          @ '' is already registered'')\<rparr>"
      using q sel lx by (simp add: register_check_def Let_def)
    note R = register_valid [OF v, of h up now d s]
    show "(resp (register h up now d s (Some u) (Some e) (Some p)) =
              \<lparr>status = 400, body = error_body ''This username is already registered''\<rparr>
            \<and> (\<exists>r \<in> set (rows d). username r = toLowerCase h u))
           \<or> (resp (register h up now d s (Some u) (Some e) (Some p)) =
                 \<lparr>status = 400, body = error_body ''This email is already registered''\<rparr>
               \<and> (\<exists>r \<in> set (rows d). email r = toLowerCase h e))"
    proof (cases "username x = toLowerCase h u")
      case True
      thus ?thesis using R chk x(1) by auto
    next
      case False
      hence "email x = toLowerCase h e" using x(2) by simp
      thus ?thesis using R chk x(1) False by auto
    qed
    show "store (register h up now d s (Some u) (Some e) (Some p)) = d"
      using R chk by simp
    show "sess (register h up now d s (Some u) (Some e) (Some p)) = s"
      using R chk by simp
  qed
  have part2: "fst (register_insert h up now d s u e p) =
            \<lparr>status = 400, body = error_body ''Username or email already exists''\<rparr>"
    if "char_length (toLowerCase h u) \<le> 50" "char_length (toLowerCase h e) \<le> 100"
      "char_length (bcrypt_hash h p) \<le> 255"
      and "up (InsertUser (toLowerCase h u) (toLowerCase h e) (bcrypt_hash h p))"
      and "\<exists>r \<in> set (rows d). username r = toLowerCase h u \<or> email r = toLowerCase h e"
  proof -
    have "insert_user now d (toLowerCase h u) (toLowerCase h e) (bcrypt_hash h p) =
          (Inl UniqueViolation, d\<lparr>users_id_seq := users_id_seq d + 1\<rparr>)"
      using that by (auto simp add: insert_user_def Let_def)
    thus ?thesis using that(4) by (simp add: register_insert_def Let_def err_code_def)
  qed
  show ?thesis using part1 part1' part2 by blast
qed

theorem register_conflict_message_witness:
  "resp (register platform_C all_up 9000 alice_db no_session
           (Some (js ''ALICE'')) (Some (js ''other@x.com'')) (Some (js ''secret2''))) =
     \<lparr>status = 400, body = error_body ''This username is already registered''\<rparr>
   \<and> store (register platform_C all_up 9000 alice_db no_session
              (Some (js ''ALICE'')) (Some (js ''other@x.com'')) (Some (js ''secret2''))) = alice_db
   \<and> fst (register_insert platform_C all_up 9000 alice_db no_session
             (js ''ALICE'') (js ''other@x.com'') (js ''secret2'')) =
       \<lparr>status = 400, body = error_body ''Username or email already exists''\<rparr>"
proof -
  have inv: "stored_lowercase platform_C alice_db" by code_simp
  have v: "register_validate (Some (js ''ALICE'')) (Some (js ''other@x.com''))
             (Some (js ''secret2'')) =
             Inr (js ''ALICE'', js ''other@x.com'', js ''secret2'')"
    by code_simp
  have dup: "\<exists>r \<in> set (rows alice_db).
               toLowerCase platform_C (username r) = toLowerCase platform_C (js ''ALICE'')
               \<or> toLowerCase platform_C (email r) = toLowerCase platform_C (js ''other@x.com'')"
    by code_simp
  have dup2: "\<exists>r \<in> set (rows alice_db).
                username r = toLowerCase platform_C (js ''ALICE'')
                \<or> email r = toLowerCase platform_C (js ''other@x.com'')"
    by code_simp
  have nomail: "\<not> (\<exists>r \<in> set (rows alice_db).
                     email r = toLowerCase platform_C (js ''other@x.com''))"
    by code_simp
  have fit: "char_length (toLowerCase platform_C (js ''ALICE'')) \<le> 50"
            "char_length (toLowerCase platform_C (js ''other@x.com'')) \<le> 100"
            "char_length (bcrypt_hash platform_C (js ''secret2'')) \<le> 255"
    by code_simp+
  note T = register_conflict_message
             [where d = alice_db and u = "js ''ALICE''" and e = "js ''other@x.com''"
                and p = "js ''secret2''" and up = all_up and h = platform_C and now = 9000
                and s = no_session]
  have w1: "resp (register platform_C all_up 9000 alice_db no_session
                    (Some (js ''ALICE'')) (Some (js ''other@x.com'')) (Some (js ''secret2''))) =
              \<lparr>status = 400, body = error_body ''This username is already registered''\<rparr>
            \<and> store (register platform_C all_up 9000 alice_db no_session
                       (Some (js ''ALICE'')) (Some (js ''other@x.com'')) (Some (js ''secret2''))) =
                alice_db"
    using T inv v dup nomail by simp
  have w2: "fst (register_insert platform_C all_up 9000 alice_db no_session
                   (js ''ALICE'') (js ''other@x.com'') (js ''secret2'')) =
              \<lparr>status = 400, body = error_body ''Username or email already exists''\<rparr>"
    using T fit dup2 by simp
  show ?thesis using w1 w2 by simp
qed

section \<open>Two concurrent registrations of one username\<close>

text \<open>
  Claim C4.  The insert itself refuses a duplicate: on a table whose stored names are
  lowercase, inserting lowercased values whose username or e-mail equals, up to case,
  that of any row, active or not, returns an error and adds no row, whether or not a
  lookup came first.  So for two registrations whose usernames agree up to case, each of
  which would succeed alone on the table \<open>d0\<close>, run concurrently in any order of their
  statements until both have answered: exactly one answers 201 and the other 400, and
  the table has gained exactly one row, with the lowercased username.
\<close>

theorem concurrent_duplicate_registration:
  "(stored_lowercase h d
    \<and> (\<exists>r \<in> set (rows d). toLowerCase h (username r) = toLowerCase h u
                           \<or> toLowerCase h (email r) = toLowerCase h e)
    \<longrightarrow> (\<exists>err. fst (insert_user now d (toLowerCase h u) (toLowerCase h e) hp) = Inl err)
        \<and> rows (snd (insert_user now d (toLowerCase h u) (toLowerCase h e) hp)) = rows d)
   \<and> (status (resp (register h up now d0 sA (Some uA) (Some eA) (Some pA))) = 201
      \<and> status (resp (register h up now d0 sB (Some uB) (Some eB) (Some pB))) = 201
      \<and> toLowerCase h uA = toLowerCase h uB
      \<and> 2 \<le> count_list ws True \<and> 2 \<le> count_list ws False
      \<and> run h up now ws (d0, Fresh (Some uA) (Some eA) (Some pA),
                             Fresh (Some uB) (Some eB) (Some pB)) = (d', a', b')
      \<longrightarrow> ((task_status a' = Some 201 \<and> task_status b' = Some 400)
            \<or> (task_status a' = Some 400 \<and> task_status b' = Some 201))
          \<and> (\<exists>r. rows d' = rows d0 @ [r] \<and> username r = toLowerCase h uA))"
proof -
  have ins: "(\<exists>err. fst (insert_user now d (toLowerCase h u) (toLowerCase h e) hp) = Inl err)
        \<and> rows (snd (insert_user now d (toLowerCase h u) (toLowerCase h e) hp)) = rows d"
    if inv: "stored_lowercase h d"
      and dup: "\<exists>r \<in> set (rows d). toLowerCase h (username r) = toLowerCase h u
                                  \<or> toLowerCase h (email r) = toLowerCase h e"
  proof -
    have "\<forall>r \<in> set (rows d). toLowerCase h (username r) = username r
                                 \<and> toLowerCase h (email r) = email r"
      using inv by (simp add: stored_lowercase_def lowercase_def list_all_iff)
    hence "(\<exists>r \<in> set (rows d). username r = toLowerCase h u)
           \<or> (\<exists>r \<in> set (rows d). email r = toLowerCase h e)"
      using dup by auto
    thus ?thesis by (auto simp add: insert_user_def Let_def)
  qed
  have race: "((task_status a' = Some 201 \<and> task_status b' = Some 400)
            \<or> (task_status a' = Some 400 \<and> task_status b' = Some 201))
          \<and> (\<exists>r. rows d' = rows d0 @ [r] \<and> username r = toLowerCase h uA)"
    if soloA: "status (resp (register h up now d0 sA (Some uA) (Some eA) (Some pA))) = 201"
      and soloB: "status (resp (register h up now d0 sB (Some uB) (Some eB) (Some pB))) = 201"
      and same: "toLowerCase h uA = toLowerCase h uB"
      and sched: "2 \<le> count_list ws True" "2 \<le> count_list ws False"
      and fin: "run h up now ws (d0, Fresh (Some uA) (Some eA) (Some pA),
                                  Fresh (Some uB) (Some eB) (Some pB)) = (d', a', b')"
  proof -
    have A: "registrable h up d0 uA eA pA" using solo_registrable [OF soloA] .
    have B: "registrable h up d0 uB eB pB" using solo_registrable [OF soloB] .
    have init: "race_inv d0 (toLowerCase h uA) uA eA pA uB eB pB
                  (d0, Fresh (Some uA) (Some eA) (Some pA), Fresh (Some uB) (Some eB) (Some pB))"
      by (simp add: pending_def)
    have r: "race_inv d0 (toLowerCase h uA) uA eA pA uB eB pB (d', a', b')"
      and pa: "2 \<le> progress a'" and pb: "2 \<le> progress b'"
      using run_inv [OF A B same init fin] sched by simp_all
    have np: "\<not> pending uA eA pA a'" using pa progress_pending [of uA eA pA a'] by auto
    hence om: "one_more d0 (toLowerCase h uA) d'"
      and w: "(won a' \<and> lost uB eB pB b') \<or> (won b' \<and> lost uA eA pA a')"
      using r by auto
    have "(task_status a' = Some 201 \<and> task_status b' = Some 400)
            \<or> (task_status a' = Some 400 \<and> task_status b' = Some 201)"
      using w finished_lost [OF _ pa] finished_lost [OF _ pb] by (auto simp add: won_def)
    thus ?thesis using om by (simp add: one_more_iff)
  qed
  show ?thesis using ins race by blast
qed

theorem concurrent_duplicate_registration_witness:
  "status (resp (register platform_C all_up 7000 empty_db no_session
                   (Some (js ''Alice'')) (Some (js ''a@x.com'')) (Some (js ''secret1'')))) = 201
   \<and> status (resp (register platform_C all_up 7000 empty_db no_session
                     (Some (js ''alice'')) (Some (js ''b@x.com'')) (Some (js ''secret2'')))) = 201
   \<and> task_status (fst (snd (run platform_C all_up 7000 [True, False, True, False]
                               (empty_db, first_request, second_request)))) = Some 201
   \<and> task_status (snd (snd (run platform_C all_up 7000 [True, False, True, False]
                               (empty_db, first_request, second_request)))) = Some 400
   \<and> (\<exists>r. rows (fst (run platform_C all_up 7000 [True, False, True, False]
                        (empty_db, first_request, second_request))) = rows empty_db @ [r]
          \<and> username r = js ''alice'')
   \<and> rows (snd (insert_user 9000 two_db (js ''bob'') (js ''robert@x.com'')
                   (js ''$2b$12$hunter23''))) =
       rows two_db"
proof -
  let ?R = "run platform_C all_up 7000 [True, False, True, False]
              (empty_db, Fresh (Some (js ''Alice'')) (Some (js ''a@x.com'')) (Some (js ''secret1'')),
               Fresh (Some (js ''alice'')) (Some (js ''b@x.com'')) (Some (js ''secret2'')))"
  have soloA: "status (resp (register platform_C all_up 7000 empty_db no_session
                   (Some (js ''Alice'')) (Some (js ''a@x.com'')) (Some (js ''secret1'')))) = 201"
    by code_simp
  have soloB: "status (resp (register platform_C all_up 7000 empty_db no_session
                     (Some (js ''alice'')) (Some (js ''b@x.com'')) (Some (js ''secret2'')))) = 201"
    by code_simp
  have same: "toLowerCase platform_C (js ''Alice'') = toLowerCase platform_C (js ''alice'')"
    by code_simp
  have l: "toLowerCase platform_C (js ''Alice'') = js ''alice''"
          "toLowerCase platform_C (js ''BOB'') = js ''bob''"
          "toLowerCase platform_C (js ''Robert@x.com'') = js ''robert@x.com''"
    by code_simp+
  have c: "2 \<le> count_list [True, False, True, False] True"
          "2 \<le> count_list [True, False, True, False] False"
    by simp_all
  have fin: "?R = (fst ?R, fst (snd ?R), snd (snd ?R))" by simp
  have a: "task_status (fst (snd ?R)) = Some 201" by code_simp
  have inv: "stored_lowercase platform_C two_db" by code_simp
  have dup: "\<exists>r \<in> set (rows two_db).
               toLowerCase platform_C (username r) = toLowerCase platform_C (js ''BOB'')
               \<or> toLowerCase platform_C (email r) = toLowerCase platform_C (js ''Robert@x.com'')"
    by code_simp
  note T1 = concurrent_duplicate_registration
            [where h = platform_C and up = all_up and now = 7000 and d0 = empty_db
               and sA = no_session and sB = no_session
               and uA = "js ''Alice''" and eA = "js ''a@x.com''" and pA = "js ''secret1''"
               and uB = "js ''alice''" and eB = "js ''b@x.com''" and pB = "js ''secret2''"
               and ws = "[True, False, True, False]"
               and d' = "fst ?R" and a' = "fst (snd ?R)" and b' = "snd (snd ?R)"
               and d = empty_db and u = "[]" and e = "[]" and hp = "[]"]
  note T2 = concurrent_duplicate_registration
            [where d = two_db and u = "js ''BOB''" and e = "js ''Robert@x.com''"
               and hp = "js ''$2b$12$hunter23''" and now = 9000
               and h = platform_C and up = all_down and d0 = empty_db
               and sA = no_session and sB = no_session
               and uA = "js ''Alice''" and eA = "js ''a@x.com''" and pA = "js ''secret1''"
               and uB = "js ''alice''" and eB = "js ''b@x.com''" and pB = "js ''secret2''"
               and ws = "[]" and d' = empty_db and a' = first_request and b' = second_request]
  have w1: "((task_status (fst (snd ?R)) = Some 201 \<and> task_status (snd (snd ?R)) = Some 400)
             \<or> (task_status (fst (snd ?R)) = Some 400 \<and> task_status (snd (snd ?R)) = Some 201))
            \<and> (\<exists>r. rows (fst ?R) = rows empty_db @ [r]
                   \<and> username r = toLowerCase platform_C (js ''Alice''))"
    using T1 soloA soloB same c fin by blast
  have w2: "rows (snd (insert_user 9000 two_db (toLowerCase platform_C (js ''BOB''))
                         (toLowerCase platform_C (js ''Robert@x.com''))
                         (js ''$2b$12$hunter23''))) = rows two_db"
    using T2 inv dup by blast
  show ?thesis
    using w1 w2 soloA soloB a
    by (simp add: first_request_def second_request_def l)
qed

end
